theory Spec2Isabelle
  imports Main "HOL-Library.Sublist"
begin

section \<open>Values exchanged with the campaign service\<close>

text \<open>
  The campaign service answers with decoded JSON, which the Python code handles as
  dynamically typed values. Numbers are the integers the service counts with; a
  dictionary is an association list read with \<open>map_of\<close>, its keys in insertion order.
\<close>

datatype json =
    JNull
  | JBool bool
  | JInt int
  | JStr string
  | JArr "json list"
  | JObj "(string \<times> json) list"

text \<open>The exceptions of class \<open>Exception\<close> that the modelled code can meet.\<close>

datatype exn =
  KeyError | TypeError | AttributeError | ValueError | OverflowError | RequestFailed

subsection \<open>Python operations on these values\<close>

text \<open>\<open>d[k]\<close>: only a dictionary holding the key answers.\<close>

fun py_getitem :: "json \<Rightarrow> string \<Rightarrow> exn + json" where
  "py_getitem (JObj kvs) k = (case map_of kvs k of None \<Rightarrow> Inl KeyError | Some v \<Rightarrow> Inr v)"
| "py_getitem _ k = Inl TypeError"

text \<open>\<open>d.get(k, dflt)\<close>: every value that is not a dictionary has no attribute \<open>get\<close>.\<close>

fun py_get :: "json \<Rightarrow> string \<Rightarrow> json \<Rightarrow> exn + json" where
  "py_get (JObj kvs) k dflt = Inr (case map_of kvs k of None \<Rightarrow> dflt | Some v \<Rightarrow> v)"
| "py_get _ k dflt = Inl AttributeError"

text \<open>\<open>k in d\<close> for a string \<open>k\<close>: key of a dictionary, element of a list, substring of a string.\<close>

fun py_in_str :: "string \<Rightarrow> string \<Rightarrow> bool" where
  "py_in_str sub [] = (sub = [])"
| "py_in_str sub (c # cs) = (prefix sub (c # cs) \<or> py_in_str sub cs)"

fun py_has_key :: "string \<Rightarrow> json \<Rightarrow> exn + bool" where
  "py_has_key k (JObj kvs) = Inr (k \<in> fst ` set kvs)"
| "py_has_key k (JArr xs) = Inr (JStr k \<in> set xs)"
| "py_has_key k (JStr s) = Inr (py_in_str k s)"
| "py_has_key k _ = Inl TypeError"

text \<open>Truth value of a value in a condition.\<close>

fun py_truthy :: "json \<Rightarrow> bool" where
  "py_truthy JNull = False"
| "py_truthy (JBool b) = b"
| "py_truthy (JInt n) = (n \<noteq> 0)"
| "py_truthy (JStr s) = (s \<noteq> [])"
| "py_truthy (JArr xs) = (xs \<noteq> [])"
| "py_truthy (JObj kvs) = (kvs \<noteq> [])"

text \<open>\<open>len(x)\<close> and iteration \<open>for e in x\<close>: a string yields its characters, a dictionary its keys.\<close>

fun py_len :: "json \<Rightarrow> exn + nat" where
  "py_len (JStr s) = Inr (length s)"
| "py_len (JArr xs) = Inr (length xs)"
| "py_len (JObj kvs) = Inr (length kvs)"
| "py_len _ = Inl TypeError"

fun py_iter :: "json \<Rightarrow> exn + json list" where
  "py_iter (JStr s) = Inr (map (\<lambda>c. JStr [c]) s)"
| "py_iter (JArr xs) = Inr xs"
| "py_iter (JObj kvs) = Inr (map (\<lambda>kv. JStr (fst kv)) kvs)"
| "py_iter _ = Inl TypeError"

text \<open>Numbers: \<open>bool\<close> is a subclass of \<open>int\<close>, so \<open>True\<close> counts as 1.\<close>

fun py_num :: "json \<Rightarrow> int option" where
  "py_num (JInt n) = Some n"
| "py_num (JBool b) = Some (if b then 1 else 0)"
| "py_num _ = None"

text \<open>
  \<open>a > b\<close>. Every comparison of the modelled code has an integer on one side, and then
  Python raises \<open>TypeError\<close> unless the other side is a number too.
\<close>

definition py_gt :: "json \<Rightarrow> json \<Rightarrow> exn + bool" where
  "py_gt a b = (case (py_num a, py_num b) of
                  (Some x, Some y) \<Rightarrow> Inr (x > y)
                | _ \<Rightarrow> Inl TypeError)"

definition py_lt :: "json \<Rightarrow> json \<Rightarrow> exn + bool" where
  "py_lt a b = py_gt b a"

text \<open>\<open>max(a, b)\<close> keeps its first argument unless the second is greater.\<close>

definition py_max :: "json \<Rightarrow> json \<Rightarrow> exn + json" where
  "py_max a b = (case py_gt b a of Inl e \<Rightarrow> Inl e | Inr g \<Rightarrow> Inr (if g then b else a))"

text \<open>
  \<open>a == b\<close>, which never raises. Every equality test of the modelled code has a string
  constant or a number on one side (or a hashable member of a set); for those this is
  Python's answer: numbers by value, anything else only against its own kind.
\<close>

definition py_eq :: "json \<Rightarrow> json \<Rightarrow> bool" where
  "py_eq a b = (case (py_num a, py_num b) of
                  (Some x, Some y) \<Rightarrow> x = y
                | (None, None) \<Rightarrow> a = b
                | _ \<Rightarrow> False)"

text \<open>\<open>x in [..]\<close> on a list, and \<open>x in s\<close> on a set, whose lookup hashes \<open>x\<close> first.\<close>

definition py_in_list :: "json \<Rightarrow> json list \<Rightarrow> bool" where
  "py_in_list x ys = list_ex (py_eq x) ys"

fun py_hashable :: "json \<Rightarrow> bool" where
  "py_hashable (JArr xs) = False"
| "py_hashable (JObj kvs) = False"
| "py_hashable _ = True"

definition py_in_set :: "json \<Rightarrow> json set \<Rightarrow> exn + bool" where
  "py_in_set x S = (if py_hashable x then Inr (\<exists>y\<in>S. py_eq x y) else Inl TypeError)"

text \<open>Lower-casing of a letter of ASCII text: A to Z are mapped, every other character is kept.\<close>

definition lower_char :: "char \<Rightarrow> char" where
  "lower_char c =
     (case map_of (zip ''ABCDEFGHIJKLMNOPQRSTUVWXYZ'' ''abcdefghijklmnopqrstuvwxyz'') c of
        None \<Rightarrow> c | Some d \<Rightarrow> d)"

fun ascii_only :: "string \<Rightarrow> bool" where
  "ascii_only [] = True"
| "ascii_only (c # cs) = (\<not> digit7 c \<and> ascii_only cs)"

section \<open>The world the manager runs in\<close>

text \<open>
  The logger calls of the two functions, one constructor per call site.
\<close>

datatype level = DEBUG | INFO | WARNING | ERROR

datatype msg =
    Monitoring
  | Status_line
  | Stats_line
  | Completed_successfully
  | Starting_activity_timeout
  | No_new_activity
  | No_activity_after_1_hour
  | Error_checking_status exn
  | Monitoring_timed_out
  | Processing_timeline nat
  | Event_line
  | Found_affected_user
  | Timeline_is_empty
  | Found_campaign_results nat
  | Found_affected_user_from_results
  | Stats_show_activity
  | Creating_generic_entries
  | Created_generic_entry
  | Extracted nat
  | Error_extracting exn

text \<open>
  The state outside the program: the wall clock, read by \<open>datetime.now()\<close> as a
  \<open>datetime\<close> (microseconds since the start of year 1), the state of the campaign
  service, the log written so far and the number of calls of \<open>time.sleep\<close>.
\<close>

record 'w world =
  clock :: int
  service :: 'w
  log :: "(level \<times> msg) list"
  sleeps :: nat

text \<open>
  What the program is given: the two read operations of the service client, each
  answering a request made at some clock time from some service state with a result or an
  exception, the time the call took and the next service state; by how much a sleep
  overruns; and four functions of the Python runtime that are left open: the text of a
  list or dictionary, \<open>isoformat\<close> of a time, \<open>str.lower\<close> on text that is not ASCII
  (the Unicode case mapping of the whole string), and the microseconds that \<open>timedelta\<close>
  computes in floating point for a float \<open>m * 2 ^ e\<close> of hours.
\<close>

record 'w env =
  api_get_campaign :: "json \<Rightarrow> int \<Rightarrow> 'w \<Rightarrow> (exn + json) \<times> nat \<times> 'w"
  api_get_campaign_summary :: "json \<Rightarrow> int \<Rightarrow> 'w \<Rightarrow> (exn + json) \<times> nat \<times> 'w"
  oversleep :: "'w \<Rightarrow> nat"
  py_repr :: "json \<Rightarrow> string"
  isoformat :: "int \<Rightarrow> string"
  unicode_lower :: "string \<Rightarrow> string"
  float_microseconds :: "int \<Rightarrow> int \<Rightarrow> int"

subsection \<open>Actions: state passing with exceptions\<close>

type_synonym ('a, 'w) act = "'w world \<Rightarrow> (exn + 'a) \<times> 'w world"

definition done_with :: "'a \<Rightarrow> ('a, 'w) act" where
  "done_with x w = (Inr x, w)"

definition pure :: "exn + 'a \<Rightarrow> ('a, 'w) act" where
  "pure r w = (r, w)"

definition and_then :: "('a, 'w) act \<Rightarrow> ('a \<Rightarrow> ('b, 'w) act) \<Rightarrow> ('b, 'w) act" where
  "and_then m f w = (case m w of (Inl e, w') \<Rightarrow> (Inl e, w') | (Inr x, w') \<Rightarrow> f x w')"

definition logger :: "level \<Rightarrow> msg \<Rightarrow> (unit, 'w) act" where
  "logger lvl m w = (Inr (), w\<lparr>log := log w @ [(lvl, m)]\<rparr>)"

definition call :: "(json \<Rightarrow> int \<Rightarrow> 'w \<Rightarrow> (exn + json) \<times> nat \<times> 'w) \<Rightarrow> json \<Rightarrow> (json, 'w) act" where
  "call f cid w =
     (case f cid (clock w) (service w) of
        (r, d, s') \<Rightarrow> (r, w\<lparr>clock := clock w + int d, service := s'\<rparr>))"

definition get_campaign :: "'w env \<Rightarrow> json \<Rightarrow> (json, 'w) act" where
  "get_campaign env cid = call (api_get_campaign env) cid"

definition get_campaign_summary :: "'w env \<Rightarrow> json \<Rightarrow> (json, 'w) act" where
  "get_campaign_summary env cid = call (api_get_campaign_summary env) cid"

definition datetime_now :: "(int, 'w) act" where
  "datetime_now w = (Inr (clock w), w)"

definition seconds :: "int \<Rightarrow> int" where
  "seconds n = n * 1000000"

definition time_sleep :: "'w env \<Rightarrow> int \<Rightarrow> (unit, 'w) act" where
  "time_sleep env secs w =
     (Inr (), w\<lparr>clock := clock w + seconds secs + int (oversleep env (service w)),
                sleeps := Suc (sleeps w)\<rparr>)"

text \<open>A \<open>for\<close> loop over a list, carrying the variables it updates; an exception ends it.\<close>

fun for_each :: "('x \<Rightarrow> 's \<Rightarrow> ('s, 'w) act) \<Rightarrow> 'x list \<Rightarrow> 's \<Rightarrow> ('s, 'w) act" where
  "for_each body [] s w = (Inr s, w)"
| "for_each body (x # xs) s w =
     (case body x s w of
        (Inl e, w') \<Rightarrow> (Inl e, w')
      | (Inr s', w') \<Rightarrow> for_each body xs s' w')"

definition try_except :: "('a, 'w) act \<Rightarrow> (exn \<Rightarrow> ('a, 'w) act) \<Rightarrow> ('a, 'w) act" where
  "try_except m handler w =
     (case m w of (Inl e, w') \<Rightarrow> handler e w' | (Inr x, w') \<Rightarrow> (Inr x, w'))"

subsection \<open>Formatting a value into an f-string\<close>

fun digits :: "nat \<Rightarrow> string" where
  "digits n = (if n < 10 then [''0123456789'' ! n]
               else digits (n div 10) @ [''0123456789'' ! (n mod 10)])"

declare digits.simps [simp del]

definition py_str :: "'w env \<Rightarrow> json \<Rightarrow> string" where
  "py_str env j =
     (case j of
        JStr s \<Rightarrow> s
      | JNull \<Rightarrow> ''None''
      | JBool b \<Rightarrow> (if b then ''True'' else ''False'')
      | JInt n \<Rightarrow> (if n < 0 then ''-'' @ digits (nat (- n)) else digits (nat n))
      | _ \<Rightarrow> py_repr env j)"

subsection \<open>Lower-casing a string\<close>

text \<open>
  \<open>s.lower()\<close>: only strings have it. In ASCII text the letters A to Z are mapped and
  nothing else changes; for any other text the result is the one of the runtime.
\<close>

definition lower :: "'w env \<Rightarrow> string \<Rightarrow> string" where
  "lower env s = (if ascii_only s then map lower_char s else unicode_lower env s)"

fun py_lower :: "'w env \<Rightarrow> json \<Rightarrow> exn + string" where
  "py_lower env (JStr s) = Inr (lower env s)"
| "py_lower env _ = Inl AttributeError"

subsection \<open>What an action leaves true of the world\<close>

text \<open>
  \<open>keeps P m\<close>: if \<open>P\<close> holds of the world before \<open>m\<close> runs, it holds after,
  whether \<open>m\<close> returns or raises.
\<close>

definition keeps :: "('w world \<Rightarrow> bool) \<Rightarrow> ('a, 'w) act \<Rightarrow> bool" where
  "keeps P m = (\<forall>w r w'. P w \<longrightarrow> m w = (r, w') \<longrightarrow> P w')"

lemma keepsD: "keeps P m \<Longrightarrow> P w \<Longrightarrow> m w = (r, w') \<Longrightarrow> P w'"
  by (auto simp: keeps_def)

lemma keeps_pure: "keeps P (pure r)"
  and keeps_done_with: "keeps P (done_with x)"
  and keeps_datetime_now: "keeps P datetime_now"
  by (auto simp: keeps_def pure_def done_with_def datetime_now_def)

lemma keeps_logger:
  "(\<And>w. P w \<Longrightarrow> P (w\<lparr>log := log w @ [(lvl, m)]\<rparr>)) \<Longrightarrow> keeps P (logger lvl m)"
  by (auto simp: keeps_def logger_def)

lemma keeps_call:
  "(\<And>w d s. P w \<Longrightarrow> P (w\<lparr>clock := clock w + int d, service := s\<rparr>)) \<Longrightarrow> keeps P (call f cid)"
  by (auto simp: keeps_def call_def split: prod.splits)

lemma keeps_time_sleep:
  "(\<And>w d. P w \<Longrightarrow> P (w\<lparr>clock := clock w + seconds secs + int d, sleeps := Suc (sleeps w)\<rparr>))
     \<Longrightarrow> keeps P (time_sleep env secs)"
  by (auto simp: keeps_def time_sleep_def)

lemma keeps_and_then:
  assumes "keeps P m" and "\<And>x. keeps P (f x)"
  shows "keeps P (and_then m f)"
  unfolding keeps_def
proof (intro allI impI)
  fix w r w'
  assume start: "P w" and run: "and_then m f w = (r, w')"
  obtain r1 w1 where first: "m w = (r1, w1)" by (cases "m w")
  with assms(1) start have mid: "P w1" by (rule keepsD)
  show "P w'"
  proof (cases r1)
    case (Inl e)
    with first run mid show ?thesis by (simp add: and_then_def)
  next
    case (Inr x)
    with first run have "f x w1 = (r, w')" by (simp add: and_then_def)
    with assms(2) mid show ?thesis by (rule keepsD)
  qed
qed

lemma keeps_for_each:
  assumes "\<And>x s. keeps P (body x s)"
  shows "keeps P (for_each body xs s)"
proof (induction xs arbitrary: s)
  case Nil
  show ?case by (simp add: keeps_def)
next
  case (Cons x xs)
  show ?case
    unfolding keeps_def
  proof (intro allI impI)
    fix w r w'
    assume start: "P w" and run: "for_each body (x # xs) s w = (r, w')"
    obtain r1 w1 where first: "body x s w = (r1, w1)" by (cases "body x s w")
    with assms start have mid: "P w1" by (rule keepsD)
    show "P w'"
    proof (cases r1)
      case (Inl e)
      with first run mid show ?thesis by simp
    next
      case (Inr s')
      with first run have "for_each body xs s' w1 = (r, w')" by simp
      with Cons.IH mid show ?thesis by (rule keepsD)
    qed
  qed
qed

lemma keeps_if: "keeps P a \<Longrightarrow> keeps P b \<Longrightarrow> keeps P (if c then a else b)"
  by simp

lemma keeps_option:
  "keeps P a \<Longrightarrow> (\<And>x. keeps P (b x)) \<Longrightarrow> keeps P (case l of None \<Rightarrow> a | Some x \<Rightarrow> b x)"
  by (cases l) simp_all

lemma keeps_list:
  "keeps P a \<Longrightarrow> (\<And>x xs. keeps P (b x xs)) \<Longrightarrow> keeps P (case l of [] \<Rightarrow> a | x # xs \<Rightarrow> b x xs)"
  by (cases l) simp_all

lemma keeps_prod: "(\<And>a b. keeps P (f a b)) \<Longrightarrow> keeps P (case p of (a, b) \<Rightarrow> f a b)"
  by (cases p) simp

lemma keeps_prod2: "(\<And>a b. keeps P (f a b y)) \<Longrightarrow> keeps P ((case p of (a, b) \<Rightarrow> f a b) y)"
  by (cases p) simp

lemma keeps_try_except:
  assumes "keeps P m" and "\<And>e. keeps P (handler e)"
  shows "keeps P (try_except m handler)"
  unfolding keeps_def
proof (intro allI impI)
  fix w r w'
  assume start: "P w" and run: "try_except m handler w = (r, w')"
  obtain r1 w1 where first: "m w = (r1, w1)" by (cases "m w")
  with assms(1) start have mid: "P w1" by (rule keepsD)
  show "P w'"
  proof (cases r1)
    case (Inl e)
    with first run have "handler e w1 = (r, w')" by (simp add: try_except_def)
    with assms(2) mid show ?thesis by (rule keepsD)
  next
    case (Inr x)
    with first run mid show ?thesis by (simp add: try_except_def)
  qed
qed

lemmas keeps_intros =
  keeps_and_then keeps_pure keeps_done_with keeps_datetime_now keeps_logger keeps_call
  keeps_time_sleep keeps_for_each keeps_try_except keeps_if keeps_option keeps_list
  keeps_prod keeps_prod2

section \<open>Extraction of the affected users\<close>

text \<open>The output unit: the dictionary with these five keys that the code appends.\<close>

record affected_user =
  first_name :: json
  last_name :: json
  email :: json
  event_time :: json
  event_type :: json

definition click_indicators :: "string list" where
  "click_indicators =
     [''clicked link'', ''clicked'', ''link clicked'',
      ''submitted data'', ''submitted'', ''data submitted'',
      ''form submitted'', ''credentials submitted'',
      ''email clicked'', ''user clicked'']"

subsection \<open>Method 1: the timeline events\<close>

text \<open>
  The body of the loop over the timeline. The default of \<open>event.get('email', ...)\<close> is
  computed before the call, so \<open>details\<close> has to be a dictionary.
\<close>

definition method1_body ::
  "'w env \<Rightarrow> json \<Rightarrow> json set \<times> affected_user list
     \<Rightarrow> (json set \<times> affected_user list, 'w) act" where
  "method1_body env event = (\<lambda>(processed_emails, affected_users).
     and_then (pure (py_get event ''message'' (JStr ''''))) (\<lambda>m.
     and_then (pure (py_lower env m)) (\<lambda>message.
     and_then (logger DEBUG Event_line) (\<lambda>_.
     if list_ex (\<lambda>indicator. py_in_str indicator message) click_indicators then
       and_then (pure (py_get event ''details'' (JObj []))) (\<lambda>details.
       and_then (pure (py_get details ''email'' (JStr ''''))) (\<lambda>dflt.
       and_then (pure (py_get event ''email'' dflt)) (\<lambda>email.
       let event_key = JStr (py_str env email @ ''_'' @ message) in
       and_then (pure (py_in_set event_key processed_emails)) (\<lambda>seen.
       if seen then done_with (processed_emails, affected_users)
       else
         let processed_emails = insert event_key processed_emails in
         if py_truthy email then
           and_then (pure (py_get details ''first_name'' (JStr ''''))) (\<lambda>fn.
           and_then (pure (py_get details ''last_name'' (JStr ''''))) (\<lambda>ln.
           and_then (pure (py_get event ''time'' (JStr ''''))) (\<lambda>tm.
           and_then (pure (py_get event ''message'' (JStr message))) (\<lambda>ty.
           and_then (logger INFO Found_affected_user) (\<lambda>_.
           done_with (processed_emails,
             affected_users @
               [\<lparr>first_name = fn, last_name = ln, email = email,
                 event_time = tm, event_type = ty\<rparr>]))))))
         else done_with (processed_emails, affected_users)))))
     else done_with (processed_emails, affected_users)))))"

subsection \<open>Method 2: the per-target results of the campaign\<close>

text \<open>\<open>any(key in result for key in keys)\<close>, which stops at the first key found.\<close>

fun any_key_in :: "string list \<Rightarrow> json \<Rightarrow> exn + bool" where
  "any_key_in [] result = Inr False"
| "any_key_in (k # ks) result =
     (case py_has_key k result of
        Inl e \<Rightarrow> Inl e
      | Inr found \<Rightarrow> if found then Inr True else any_key_in ks result)"

text \<open>The condition of line 450: three tests, each evaluated only if the ones before fail.\<close>

definition clicked_or_submitted :: "json \<Rightarrow> exn + bool" where
  "clicked_or_submitted result =
     (case py_get result ''status'' JNull of
        Inl e \<Rightarrow> Inl e
      | Inr status \<Rightarrow>
          if py_in_list status [JStr ''Clicked Link'', JStr ''Submitted Data''] then Inr True
          else (case any_key_in [''clicked'', ''submitted_data''] result of
                  Inl e \<Rightarrow> Inl e
                | Inr found \<Rightarrow>
                    if found then Inr True
                    else (case py_get result ''reported'' (JBool False) of
                            Inl e \<Rightarrow> Inl e
                          | Inr reported \<Rightarrow> Inr (py_truthy reported))))"

text \<open>The condition of line 460.\<close>

definition has_submitted_data :: "json \<Rightarrow> exn + bool" where
  "has_submitted_data result =
     (case py_has_key ''submitted_data'' result of
        Inl e \<Rightarrow> Inl e
      | Inr found \<Rightarrow>
          if found then Inr True
          else (case py_get result ''status'' JNull of
                  Inl e \<Rightarrow> Inl e
                | Inr status \<Rightarrow> Inr (py_eq status (JStr ''Submitted Data''))))"

definition method2_body ::
  "'w env \<Rightarrow> json \<Rightarrow> json set \<times> affected_user list
     \<Rightarrow> (json set \<times> affected_user list, 'w) act" where
  "method2_body env result = (\<lambda>(processed_emails, affected_users).
     and_then (pure (clicked_or_submitted result)) (\<lambda>qualifies.
     if qualifies then
       and_then (pure (py_get result ''email'' (JStr ''''))) (\<lambda>email.
       and_then (pure (if py_truthy email
                       then (case py_in_set email processed_emails of
                               Inl e \<Rightarrow> Inl e | Inr seen \<Rightarrow> Inr (\<not> seen))
                       else Inr False)) (\<lambda>fresh.
       if fresh then
         let processed_emails = insert email processed_emails in
         and_then (pure (has_submitted_data result)) (\<lambda>submitted.
         let ty = (if submitted then ''Submitted Data'' else ''Clicked Link'') in
         and_then (pure (py_get result ''first_name'' (JStr ''''))) (\<lambda>fn.
         and_then (pure (py_get result ''last_name'' (JStr ''''))) (\<lambda>ln.
         and_then (pure (py_get result ''send_date'' (JStr ''''))) (\<lambda>tm.
         and_then (logger INFO Found_affected_user_from_results) (\<lambda>_.
         done_with (processed_emails,
           affected_users @
             [\<lparr>first_name = fn, last_name = ln, email = email,
               event_time = tm, event_type = JStr ty\<rparr>]))))))
       else done_with (processed_emails, affected_users)))
     else done_with (processed_emails, affected_users)))"

definition method2 ::
  "'w env \<Rightarrow> json \<Rightarrow> json set \<times> affected_user list
     \<Rightarrow> (json set \<times> affected_user list, 'w) act" where
  "method2 env cid st =
     and_then (logger INFO Timeline_is_empty) (\<lambda>_.
     and_then (get_campaign env cid) (\<lambda>campaign_details.
     and_then (pure (py_get campaign_details ''results'' (JArr []))) (\<lambda>campaign_results.
     and_then (pure (py_len campaign_results)) (\<lambda>n.
     and_then (logger INFO (Found_campaign_results n)) (\<lambda>_.
     and_then (pure (py_iter campaign_results)) (\<lambda>results.
     for_each (method2_body env) results st))))))"

subsection \<open>Method 3: generic entries from the statistics\<close>

definition method3_body ::
  "'w env \<Rightarrow> json \<Rightarrow> json \<Rightarrow> nat \<times> json \<Rightarrow> affected_user list
     \<Rightarrow> (affected_user list, 'w) act" where
  "method3_body env clicked submitted = (\<lambda>(i, target) affected_users.
     and_then (pure (py_max clicked submitted)) (\<lambda>most.
     and_then (pure (py_lt (JInt (int i)) most)) (\<lambda>within.
     if within then
       and_then (pure (py_get target ''email'' (JStr ''''))) (\<lambda>email.
       if py_truthy email then
         and_then (pure (py_lt (JInt (int i)) submitted)) (\<lambda>is_submitted.
         let ty = (if is_submitted then ''Submitted Data'' else ''Clicked Link'') in
         and_then (pure (py_get target ''first_name'' (JStr ''''))) (\<lambda>fn.
         and_then (pure (py_get target ''last_name'' (JStr ''''))) (\<lambda>ln.
         and_then datetime_now (\<lambda>now.
         and_then (logger INFO Created_generic_entry) (\<lambda>_.
         done_with
           (affected_users @
              [\<lparr>first_name = fn, last_name = ln, email = email,
                event_time = JStr (isoformat env now), event_type = JStr ty\<rparr>]))))))
       else done_with affected_users)
     else done_with affected_users)))"

text \<open>The loop over the groups ends with \<open>break\<close>: only the first group is read.\<close>

definition method3 ::
  "'w env \<Rightarrow> json \<Rightarrow> json \<Rightarrow> affected_user list \<Rightarrow> (affected_user list, 'w) act" where
  "method3 env cid results affected_users =
     and_then (pure (py_get results ''stats'' (JObj []))) (\<lambda>stats.
     and_then (pure (py_get stats ''clicked'' (JInt 0))) (\<lambda>clicked.
     and_then (pure (py_get stats ''submitted_data'' (JInt 0))) (\<lambda>submitted.
     and_then (pure (case py_gt clicked (JInt 0) of
                       Inl e \<Rightarrow> Inl e
                     | Inr c \<Rightarrow> if c then Inr True else py_gt submitted (JInt 0))) (\<lambda>active.
     if active then
       and_then (logger WARNING Stats_show_activity) (\<lambda>_.
       and_then (logger WARNING Creating_generic_entries) (\<lambda>_.
       and_then (get_campaign env cid) (\<lambda>campaign_details.
       and_then (pure (py_get campaign_details ''groups'' (JArr []))) (\<lambda>groups.
       and_then (pure (py_iter groups)) (\<lambda>gs.
       case gs of
         [] \<Rightarrow> done_with affected_users
       | first_group # _ \<Rightarrow>
           and_then (pure (py_get first_group ''targets'' (JArr []))) (\<lambda>targets.
           and_then (pure (py_iter targets)) (\<lambda>ts.
           for_each (method3_body env clicked submitted) (enumerate 0 ts) affected_users)))))))
     else done_with affected_users))))"

subsection \<open>The whole extraction\<close>

text \<open>The \<open>try\<close> block of \<open>extract_campaign_results\<close>.\<close>

definition extract_body :: "'w env \<Rightarrow> json \<Rightarrow> (affected_user list, 'w) act" where
  "extract_body env campaign =
     and_then (pure (py_getitem campaign ''id'')) (\<lambda>cid.
     and_then (get_campaign_summary env cid) (\<lambda>results.
     and_then (pure (py_get results ''timeline'' (JArr []))) (\<lambda>timeline.
     and_then (pure (py_len timeline)) (\<lambda>n.
     and_then (logger INFO (Processing_timeline n)) (\<lambda>_.
     and_then (pure (py_iter timeline)) (\<lambda>events.
     and_then (for_each (method1_body env) events ({}, [])) (\<lambda>st1.
     and_then (if snd st1 = [] \<and> n = 0 then method2 env cid st1 else done_with st1) (\<lambda>st2.
     and_then (if snd st2 = [] then method3 env cid results (snd st2)
               else done_with (snd st2)) (\<lambda>affected_users.
     and_then (logger INFO (Extracted (length affected_users))) (\<lambda>_.
     done_with affected_users))))))))))"

text \<open>The function itself: \<open>except Exception\<close> logs the error and returns the empty list.\<close>

definition extract_campaign_results :: "'w env \<Rightarrow> json \<Rightarrow> (affected_user list, 'w) act" where
  "extract_campaign_results env campaign =
     try_except (extract_body env campaign)
       (\<lambda>e. and_then (logger ERROR (Error_extracting e)) (\<lambda>_. done_with []))"

section \<open>Waiting for the campaign to complete\<close>

definition minutes :: "int \<Rightarrow> int" where
  "minutes n = seconds (60 * n)"

definition hours :: "int \<Rightarrow> int" where
  "hours n = seconds (3600 * n)"

definition check_interval :: int where
  "check_interval = 600"

definition no_activity_timeout :: int where
  "no_activity_timeout = minutes 30"

subsection \<open>Times and durations\<close>

text \<open>
  A \<open>datetime\<close> is its distance in microseconds from \<open>datetime.min\<close>, the start of year 1;
  the last one, \<open>datetime.max\<close>, ends year 9999. A \<open>timedelta\<close> is a number of microseconds
  whose whole days have at most nine digits.
\<close>

definition datetime_max :: int where
  "datetime_max = 3652059 * 86400000000 - 1"

definition timedelta_of :: "int \<Rightarrow> exn + int" where
  "timedelta_of us =
     (if - 999999999 \<le> us div 86400000000 \<and> us div 86400000000 \<le> 999999999
      then Inr us else Inl OverflowError)"

text \<open>
  The value passed as \<open>timeout_hours\<close>: an \<open>int\<close> (the declared type, and the default 24;
  a \<open>bool\<close> counts as 0 or 1), a finite float \<open>m * 2 ^ e\<close> (test mode passes 0.5), an
  infinite float, a NaN, or a value that is no number.
\<close>

datatype number =
    Int_value int
  | Float_value int int
  | Float_inf
  | Float_nan
  | No_number

text \<open>\<open>timedelta(hours=timeout_hours)\<close>.\<close>

definition timedelta_hours :: "'w env \<Rightarrow> number \<Rightarrow> exn + int" where
  "timedelta_hours env timeout_hours =
     (case timeout_hours of
        Int_value n \<Rightarrow> timedelta_of (n * 3600000000)
      | Float_value m e \<Rightarrow> timedelta_of (float_microseconds env m e)
      | Float_inf \<Rightarrow> Inl OverflowError
      | Float_nan \<Rightarrow> Inl ValueError
      | No_number \<Rightarrow> Inl TypeError)"

text \<open>\<open>t + d\<close> for a \<open>datetime\<close> and a \<open>timedelta\<close>: the sum has to be a \<open>datetime\<close>.\<close>

definition datetime_plus :: "int \<Rightarrow> int \<Rightarrow> exn + int" where
  "datetime_plus t d =
     (if 0 \<le> t + d \<and> t + d \<le> datetime_max then Inr (t + d) else Inl OverflowError)"

subsection \<open>One poll and the loop\<close>

datatype flow = Returned json | Next "int option"

definition poll_checks :: "'w env \<Rightarrow> json \<Rightarrow> int \<Rightarrow> int option \<Rightarrow> (flow, 'w) act" where
  "poll_checks env cid start_time last_activity_check =
     and_then (get_campaign env cid) (\<lambda>campaign.
     and_then (get_campaign_summary env cid) (\<lambda>campaign_summary.
     and_then (pure (py_get campaign ''status'' (JStr ''Unknown''))) (\<lambda>status.
     and_then (pure (py_get campaign_summary ''stats'' (JObj []))) (\<lambda>stats.
     and_then (pure (py_get stats ''total'' (JInt 0))) (\<lambda>total.
     and_then (pure (py_get stats ''sent'' (JInt 0))) (\<lambda>sent.
     and_then (pure (py_get stats ''opened'' (JInt 0))) (\<lambda>opened.
     and_then (pure (py_get stats ''clicked'' (JInt 0))) (\<lambda>clicked.
     and_then (pure (py_get stats ''submitted_data'' (JInt 0))) (\<lambda>submitted.
     and_then (logger INFO Status_line) (\<lambda>_.
     and_then (logger INFO Stats_line) (\<lambda>_.
     if py_in_list status [JStr ''Completed'', JStr ''Finished''] then
       and_then (logger INFO Completed_successfully) (\<lambda>_. done_with (Returned campaign))
     else
       and_then (pure (case py_gt sent (JInt 0) of
                         Inl e \<Rightarrow> Inl e
                       | Inr g \<Rightarrow> Inr (g \<and> py_eq sent total))) (\<lambda>delivered.
       if delivered then
         and_then (pure (case py_gt clicked (JInt 0) of
                           Inl e \<Rightarrow> Inl e
                         | Inr c \<Rightarrow> if c then Inr True else py_gt submitted (JInt 0))) (\<lambda>active.
         if active then
           and_then datetime_now (\<lambda>current_time.
           case last_activity_check of
             None \<Rightarrow>
               and_then (logger INFO Starting_activity_timeout) (\<lambda>_.
               done_with (Next (Some current_time)))
           | Some since \<Rightarrow>
               if current_time - since > no_activity_timeout then
                 and_then (logger INFO No_new_activity) (\<lambda>_. done_with (Returned campaign))
               else done_with (Next last_activity_check))
         else if py_eq sent total then
           and_then datetime_now (\<lambda>now.
           let elapsed = now - start_time in
           if elapsed > hours 1 then
             and_then (logger INFO No_activity_after_1_hour) (\<lambda>_. done_with (Returned campaign))
           else done_with (Next last_activity_check))
         else done_with (Next last_activity_check))
       else done_with (Next last_activity_check)))))))))))))"

definition poll_body :: "'w env \<Rightarrow> json \<Rightarrow> int \<Rightarrow> int option \<Rightarrow> (flow, 'w) act" where
  "poll_body env cid start_time last_activity_check =
     and_then (poll_checks env cid start_time last_activity_check) (\<lambda>fl.
     case fl of
       Returned campaign \<Rightarrow> done_with (Returned campaign)
     | Next l \<Rightarrow> and_then (time_sleep env check_interval) (\<lambda>_. done_with (Next l)))"

definition poll_failed :: "'w env \<Rightarrow> exn \<Rightarrow> 'w world \<Rightarrow> 'w world" where
  "poll_failed env e w =
     snd (and_then (logger ERROR (Error_checking_status e)) (\<lambda>_. time_sleep env check_interval) w)"

text \<open>The clock never runs backwards, and a poll that goes on has slept.\<close>

lemma keeps_flow:
  "(\<And>c. keeps P (a c)) \<Longrightarrow> (\<And>x. keeps P (b x))
     \<Longrightarrow> keeps P (case fl of Returned c \<Rightarrow> a c | Next x \<Rightarrow> b x)"
  by (cases fl) simp_all

lemma poll_checks_clock: "keeps (\<lambda>v. c \<le> clock v) (poll_checks env cid st l)"
  unfolding poll_checks_def Let_def get_campaign_def get_campaign_summary_def
  by (intro keeps_intros) simp_all

lemma poll_body_clock:
  assumes "poll_body env cid st l w = (r, w')"
  shows "clock w \<le> clock w'"
proof -
  have "keeps (\<lambda>v. clock w \<le> clock v) (poll_body env cid st l)"
    unfolding poll_body_def
    by (intro keeps_intros keeps_flow poll_checks_clock)
       (simp_all add: seconds_def check_interval_def)
  from this _ assms show ?thesis by (rule keepsD) simp
qed

lemma poll_body_Next_clock:
  assumes "poll_body env cid st l w = (Inr (Next l'), w')"
  shows "clock w + seconds 600 \<le> clock w'"
proof -
  obtain r w1 where checks: "poll_checks env cid st l w = (r, w1)"
    by (cases "poll_checks env cid st l w")
  have "clock w \<le> clock w1"
    using keepsD [OF poll_checks_clock [of "clock w"] _ checks] by simp
  moreover have "clock w1 + seconds 600 \<le> clock w'"
    using assms checks
    by (auto simp: poll_body_def and_then_def done_with_def time_sleep_def check_interval_def
        split: sum.splits flow.splits prod.splits)
  ultimately show ?thesis by simp
qed

lemma poll_failed_clock: "clock w + seconds 600 \<le> clock (poll_failed env e w)"
  by (simp add: poll_failed_def and_then_def logger_def time_sleep_def check_interval_def)

function monitor_loop ::
  "'w env \<Rightarrow> json \<Rightarrow> int \<Rightarrow> int \<Rightarrow> int option \<Rightarrow> (json, 'w) act" where
  "monitor_loop env cid start_time timeout_time last_activity_check w =
     (if clock w < timeout_time then
        (case poll_body env cid start_time last_activity_check w of
           (Inr (Returned campaign), w') \<Rightarrow> (Inr campaign, w')
         | (Inr (Next l), w') \<Rightarrow> monitor_loop env cid start_time timeout_time l w'
         | (Inl e, w') \<Rightarrow>
             monitor_loop env cid start_time timeout_time last_activity_check
               (poll_failed env e w'))
      else
        and_then (logger WARNING Monitoring_timed_out) (\<lambda>_. get_campaign env cid) w)"
  by pat_completeness auto
termination
proof (relation "measure (\<lambda>(env, cid, start_time, timeout_time, l, w). nat (timeout_time - clock w))")
  show "wf (measure (\<lambda>(env, cid, start_time, timeout_time, l, w). nat (timeout_time - clock w)))"
    by simp
next
  fix env :: "'w env" and cid start_time timeout_time last_activity_check and w y :: "'w world"
    and x e
  assume running: "clock w < timeout_time"
    and poll: "(x, y) = poll_body env cid start_time last_activity_check w"
    and "x = Inl e"
  from poll have "clock w \<le> clock y"
    using poll_body_clock [of env cid start_time last_activity_check w x y] by simp
  with running poll_failed_clock [of y env e]
  show "((env, cid, start_time, timeout_time, last_activity_check, poll_failed env e y),
         env, cid, start_time, timeout_time, last_activity_check, w)
        \<in> measure (\<lambda>(env, cid, start_time, timeout_time, l, w). nat (timeout_time - clock w))"
    by (simp add: seconds_def)
next
  fix env :: "'w env" and cid start_time timeout_time last_activity_check and w y :: "'w world"
    and x fl l
  assume running: "clock w < timeout_time"
    and poll: "(x, y) = poll_body env cid start_time last_activity_check w"
    and "x = Inr fl" "fl = Next l"
  then have "clock w + seconds 600 \<le> clock y"
    using poll_body_Next_clock [of env cid start_time last_activity_check w l y] by simp
  with running
  show "((env, cid, start_time, timeout_time, l, y),
         env, cid, start_time, timeout_time, last_activity_check, w)
        \<in> measure (\<lambda>(env, cid, start_time, timeout_time, l, w). nat (timeout_time - clock w))"
    by (simp add: seconds_def)
qed

declare monitor_loop.simps [simp del]

text \<open>
  The function itself. The deadline of line 327 is computed before the first log line and
  outside any \<open>try\<close>: an exception of that line leaves the function.
\<close>

definition wait_for_campaign_completion ::
  "'w env \<Rightarrow> json \<Rightarrow> number \<Rightarrow> (json, 'w) act" where
  "wait_for_campaign_completion env campaign_id timeout_hours =
     and_then datetime_now (\<lambda>start_time.
     and_then (pure (timedelta_hours env timeout_hours)) (\<lambda>delta.
     and_then (pure (datetime_plus start_time delta)) (\<lambda>timeout_time.
     and_then (logger INFO Monitoring) (\<lambda>_.
     monitor_loop env campaign_id start_time timeout_time None))))"

section \<open>Example services\<close>

text \<open>
  A world at time zero with an empty log, and a service that always gives the same
  answers. The examples hold ASCII text only, so that \<open>unicode_lower\<close> is never applied;
  for a float of hours they give the exact number of microseconds, which is what
  \<open>timedelta\<close> computes when that number is whole, as for 0.5.
\<close>

definition fresh_world :: "'w \<Rightarrow> 'w world" where
  "fresh_world s = \<lparr>clock = 0, service = s, log = [], sleeps = 0\<rparr>"

definition whole_microseconds :: "int \<Rightarrow> int \<Rightarrow> int" where
  "whole_microseconds m e =
     (if 0 \<le> e then m * 2 ^ nat e * 3600000000 else m * 3600000000 div 2 ^ nat (- e))"

definition constant_service :: "json \<Rightarrow> json \<Rightarrow> nat \<Rightarrow> unit env" where
  "constant_service campaign summary latency =
     \<lparr>api_get_campaign = (\<lambda>cid t s. (Inr campaign, latency, s)),
      api_get_campaign_summary = (\<lambda>cid t s. (Inr summary, latency, s)),
      oversleep = (\<lambda>s. 0),
      py_repr = (\<lambda>j. ''...''),
      isoformat = (\<lambda>t. digits (nat t)),
      unicode_lower = (\<lambda>s. s),
      float_microseconds = whole_microseconds\<rparr>"




text \<open>
  A campaign without per-target results whose first group has three targets and whose
  second group is not even a dictionary, and a summary without timeline whose statistics
  count two clicks and one submission.
\<close>

definition target_of :: "string \<Rightarrow> string \<Rightarrow> json" where
  "target_of name addr = JObj [(''first_name'', JStr name), (''email'', JStr addr)]"

definition two_group_campaign :: json where
  "two_group_campaign =
     JObj [(''status'', JStr ''In progress''),
           (''results'', JArr []),
           (''groups'',
              JArr [JObj [(''targets'',
                            JArr [target_of ''Ann'' ''ann@example.com'',
                                  target_of ''Ben'' ''ben@example.com'',
                                  target_of ''Cy'' ''cy@example.com''])],
                    JNull])]"

definition counting_summary :: json where
  "counting_summary =
     JObj [(''stats'', JObj [(''total'', JInt 3), (''sent'', JInt 3),
                              (''clicked'', JInt 2), (''submitted_data'', JInt 1)])]"

text \<open>A timeline with one click by an address written with capital letters.\<close>

definition mixed_case_summary :: json where
  "mixed_case_summary =
     JObj [(''timeline'',
              JArr [JObj [(''message'', JStr ''Clicked Link''),
                          (''email'', JStr ''Bob@Example.COM'')]])]"

text \<open>
  Two click events with different emails and different messages, for which
  \<open>f"{email}_{message}"\<close> is the same text, and the second of them alone.
\<close>

definition underscore_event :: json where
  "underscore_event = JObj [(''message'', JStr ''lee_Clicked Link''), (''email'', JStr ''ann'')]"

definition plain_event :: json where
  "plain_event = JObj [(''message'', JStr ''Clicked Link''), (''email'', JStr ''ann_lee'')]"

definition colliding_summary :: json where
  "colliding_summary = JObj [(''timeline'', JArr [underscore_event, plain_event])]"

definition plain_summary :: json where
  "plain_summary = JObj [(''timeline'', JArr [plain_event])]"

text \<open>
  A service whose first summary request fails and whose later ones succeed (its state
  counts the summary requests), a campaign that is completed, and a summary of a campaign
  still being sent.
\<close>

definition flaky_service :: "json \<Rightarrow> json \<Rightarrow> nat env" where
  "flaky_service campaign summary =
     \<lparr>api_get_campaign = (\<lambda>cid t n. (Inr campaign, 0, n)),
      api_get_campaign_summary =
        (\<lambda>cid t n. (if n = 0 then Inl RequestFailed else Inr summary, 0, Suc n)),
      oversleep = (\<lambda>n. 0),
      py_repr = (\<lambda>j. ''...''),
      isoformat = (\<lambda>t. digits (nat t)),
      unicode_lower = (\<lambda>s. s),
      float_microseconds = whole_microseconds\<rparr>"

definition completed_campaign :: json where
  "completed_campaign = JObj [(''id'', JInt 7), (''status'', JStr ''Completed'')]"

definition sending_summary :: json where
  "sending_summary = JObj [(''stats'', JObj [(''total'', JInt 3), (''sent'', JInt 1)])]"

text \<open>A service that cannot be reached: every request fails.\<close>

definition down_service :: "unit env" where
  "down_service =
     \<lparr>api_get_campaign = (\<lambda>cid t s. (Inl RequestFailed, 0, s)),
      api_get_campaign_summary = (\<lambda>cid t s. (Inl RequestFailed, 0, s)),
      oversleep = (\<lambda>s. 0),
      py_repr = (\<lambda>j. ''...''),
      isoformat = (\<lambda>t. digits (nat t)),
      unicode_lower = (\<lambda>s. s),
      float_microseconds = whole_microseconds\<rparr>"

text \<open>A summary of a campaign whose mails are all sent and that nobody has reacted to.\<close>

definition quiet_summary :: json where
  "quiet_summary = JObj [(''stats'', JObj [(''total'', JInt 3), (''sent'', JInt 3)])]"

section \<open>What is observed of a run\<close>


text \<open>
  The values stored under the key \<open>email\<close> anywhere in an answer of the service, an
  answer all of whose non-empty email values satisfy \<open>Q\<close>, and a list of affected users
  whose emails are non-empty and satisfy \<open>Q\<close>.
\<close>

primrec email_values :: "json \<Rightarrow> json set" where
  "email_values JNull = {}"
| "email_values (JBool b) = {}"
| "email_values (JInt n) = {}"
| "email_values (JStr s) = {}"
| "email_values (JArr xs) = \<Union> (set (map email_values xs))"
| "email_values (JObj kvs) =
     {v. (''email'', v) \<in> set kvs} \<union> \<Union> (set (map snd (map (map_prod id email_values) kvs)))"

definition clean :: "(json \<Rightarrow> bool) \<Rightarrow> json \<Rightarrow> bool" where
  "clean Q r = (\<forall>v\<in>email_values r. py_truthy v \<longrightarrow> Q v)"

definition trusted :: "(json \<Rightarrow> bool) \<Rightarrow> affected_user list \<Rightarrow> bool" where
  "trusted Q us = (\<forall>u\<in>set us. py_truthy (email u) \<and> Q (email u))"

text \<open>A string that is its own lower-casing.\<close>

definition lower_cased :: "'w env \<Rightarrow> json \<Rightarrow> bool" where
  "lower_cased env j = (case j of JStr s \<Rightarrow> lower env s = s | _ \<Rightarrow> False)"

text \<open>
  The loop heads of one call of the monitor: from a loop head with the reference time \<open>l\<close>
  and the world \<open>w\<close>, the loop comes back to its head when the deadline is not reached
  and the poll neither returns nor stops, with the state the loop then has.
\<close>

inductive polls_on ::
  "'w env \<Rightarrow> json \<Rightarrow> int \<Rightarrow> int \<Rightarrow> int option \<times> 'w world \<Rightarrow> int option \<times> 'w world \<Rightarrow> bool"
  for env cid start_time timeout_time a where
    start: "polls_on env cid start_time timeout_time a a"
  | went_on:
      "polls_on env cid start_time timeout_time a (l, w) \<Longrightarrow> clock w < timeout_time
         \<Longrightarrow> poll_body env cid start_time l w = (Inr (Next l'), w')
         \<Longrightarrow> polls_on env cid start_time timeout_time a (l', w')"
  | failed:
      "polls_on env cid start_time timeout_time a (l, w) \<Longrightarrow> clock w < timeout_time
         \<Longrightarrow> poll_body env cid start_time l w = (Inl e, w')
         \<Longrightarrow> polls_on env cid start_time timeout_time a (l, poll_failed env e w')"

text \<open>What the monitor does after the loop: the warning and one more \<open>get_campaign\<close>.\<close>

definition timed_out :: "'w env \<Rightarrow> json \<Rightarrow> (json, 'w) act" where
  "timed_out env cid = and_then (logger WARNING Monitoring_timed_out) (\<lambda>_. get_campaign env cid)"

text \<open>
  The statistics of a campaign that is fully delivered and has activity, as the monitor
  tests them: \<open>sent > 0 and sent == total\<close>, then \<open>clicked > 0 or submitted > 0\<close>.
\<close>

definition sustained_activity :: "json \<Rightarrow> bool" where
  "sustained_activity stats =
     (case (py_get stats ''total'' (JInt 0), py_get stats ''sent'' (JInt 0),
            py_get stats ''clicked'' (JInt 0), py_get stats ''submitted_data'' (JInt 0)) of
        (Inr tot, Inr sent, Inr clicked, Inr submitted) \<Rightarrow>
          py_gt sent (JInt 0) = Inr True \<and> py_eq sent tot \<and>
          (py_gt clicked (JInt 0) = Inr True \<or>
           py_gt clicked (JInt 0) = Inr False \<and> py_gt submitted (JInt 0) = Inr True)
      | _ \<Rightarrow> False)"

section \<open>Properties of the extraction\<close>






text \<open>A call of the service, split into its result and the world it leaves.\<close>

lemma call_parts:
  "call f cid w =
     (fst (f cid (clock w) (service w)),
      w\<lparr>clock := clock w + int (fst (snd (f cid (clock w) (service w)))),
        service := snd (snd (f cid (clock w) (service w)))\<rparr>)"
  by (simp add: call_def split: prod.splits)

text \<open>Where the email of an emitted user comes from.\<close>

lemma email_values_item: "x \<in> set xs \<Longrightarrow> email_values x \<subseteq> email_values (JArr xs)"
  by auto

lemma email_values_field:
  "map_of kvs k = Some v \<Longrightarrow> email_values v \<subseteq> email_values (JObj kvs)"
  by (auto dest!: map_of_SomeD intro!: bexI [of _ "(k, v)"])

lemma email_values_email:
  "map_of kvs ''email'' = Some v \<Longrightarrow> v \<in> email_values (JObj kvs)"
  by (auto dest!: map_of_SomeD)

lemma get_email_upstream:
  assumes "py_get r ''email'' (JStr '''') = Inr em" and "py_truthy em"
  shows "em \<in> email_values r"
proof (cases r)
  case (JObj kvs)
  with assms show ?thesis
    by (cases "map_of kvs ''email''") (auto dest!: map_of_SomeD)
qed (use assms in simp_all)

lemma resolved_email_upstream:
  assumes details: "py_get event ''details'' (JObj []) = Inr details"
    and dflt: "py_get details ''email'' (JStr '''') = Inr dflt"
    and em: "py_get event ''email'' dflt = Inr em"
    and truthy: "py_truthy em"
  shows "em \<in> email_values event"
proof -
  obtain kvs where event: "event = JObj kvs"
    using em by (cases event) simp_all
  show ?thesis
  proof (cases "map_of kvs ''email''")
    case (Some v)
    with em event have "em = v" by simp
    with Some event show ?thesis by (simp add: email_values_email del: email_values.simps)
  next
    case None
    with em event have same: "em = dflt" by simp
    with dflt truthy have inner: "em \<in> email_values details"
      by (simp add: get_email_upstream)
    show ?thesis
    proof (cases "map_of kvs ''details''")
      case None
      with details event have "details = JObj []" by simp
      with inner show ?thesis by simp
    next
      case (Some d)
      with details event have "details = d" by simp
      with Some inner event email_values_field [of kvs "''details''" d] show ?thesis by blast
    qed
  qed
qed

lemma trusted_snoc: "trusted Q (us @ [u]) \<longleftrightarrow> trusted Q us \<and> py_truthy (email u) \<and> Q (email u)"
  by (auto simp: trusted_def)

lemma method1_body_trusted:
  assumes up: "\<forall>v\<in>email_values event. py_truthy v \<longrightarrow> Q v"
    and run: "method1_body env event (P, us) w = (Inr (P', us'), w')"
    and inv: "trusted Q us"
  shows "trusted Q us'"
  using run inv up
  by (auto simp: method1_body_def and_then_def pure_def done_with_def logger_def Let_def
      trusted_snoc resolved_email_upstream
      split: if_splits sum.splits prod.splits)

lemma method2_body_trusted:
  assumes up: "\<forall>v\<in>email_values result. py_truthy v \<longrightarrow> Q v"
    and run: "method2_body env result (P, us) w = (Inr (P', us'), w')"
    and inv: "trusted Q us"
  shows "trusted Q us'"
  using run inv up
  by (auto simp: method2_body_def and_then_def pure_def done_with_def logger_def Let_def
      trusted_snoc get_email_upstream
      split: if_splits sum.splits prod.splits)

lemma method3_body_trusted:
  assumes up: "\<forall>v\<in>email_values target. py_truthy v \<longrightarrow> Q v"
    and run: "method3_body env clicked submitted (i, target) us w = (Inr us', w')"
    and inv: "trusted Q us"
  shows "trusted Q us'"
  using run inv up
  by (auto simp: method3_body_def and_then_def pure_def done_with_def logger_def Let_def
      datetime_now_def trusted_snoc get_email_upstream
      split: if_splits sum.splits prod.splits)

lemma clean_part: "email_values x \<subseteq> email_values r \<Longrightarrow> clean Q r \<Longrightarrow> clean Q x"
  by (auto simp: clean_def)

lemma iterated_field_values:
  assumes "py_get r k (JArr []) = Inr c" and "py_iter c = Inr items" and "x \<in> set items"
  shows "email_values x \<subseteq> email_values r"
proof -
  obtain kvs where r: "r = JObj kvs" using assms(1) by (cases r) simp_all
  show ?thesis
  proof (cases "map_of kvs k")
    case None
    with assms r show ?thesis by auto
  next
    case (Some v)
    with assms(1) r have "c = v" by simp
    with Some r have within: "email_values c \<subseteq> email_values r"
      using email_values_field by simp
    from assms(2,3) have "email_values x \<subseteq> email_values c"
      by (cases c) auto
    with within show ?thesis by simp
  qed
qed

lemma for_each_invariant:
  assumes "for_each body xs s w = (Inr s', w')" and "I s"
    and "\<And>x s w s' w'. x \<in> set xs \<Longrightarrow> I s \<Longrightarrow> body x s w = (Inr s', w') \<Longrightarrow> I s'"
  shows "I s'"
  using assms
proof (induction xs arbitrary: s w)
  case Nil
  then show ?case by simp
next
  case (Cons x xs)
  from Cons.prems(1) obtain s1 w1 where first: "body x s w = (Inr s1, w1)"
    and rest: "for_each body xs s1 w1 = (Inr s', w')"
    by (auto split: prod.splits sum.splits)
  have "I s1"
    by (rule Cons.prems(3) [OF _ Cons.prems(2) first]) simp
  with rest show ?case
    by (rule Cons.IH) (rule Cons.prems(3), simp_all)
qed

lemma call_answer:
  "call f cid w = (Inr r, w') \<Longrightarrow> \<exists>t s. fst (f cid t s) = Inr r"
  by (auto simp: call_def split: prod.splits) (metis fst_conv)

lemma method2_trusted:
  assumes details: "\<And>cid t s r. fst (api_get_campaign env cid t s) = Inr r \<Longrightarrow> clean Q r"
    and run: "method2 env cid (P, us) w = (Inr (P', us'), w')"
    and inv: "trusted Q us"
  shows "trusted Q us'"
proof -
  from run obtain campaign_details w1 campaign_results results w2
    where fetch: "get_campaign env cid (w\<lparr>log := log w @ [(INFO, Timeline_is_empty)]\<rparr>)
                    = (Inr campaign_details, w1)"
      and field: "py_get campaign_details ''results'' (JArr []) = Inr campaign_results"
      and iter: "py_iter campaign_results = Inr results"
      and loop: "for_each (method2_body env) results (P, us) w2 = (Inr (P', us'), w')"
    by (auto simp: method2_def and_then_def pure_def logger_def split: sum.splits prod.splits)
  from fetch details have good: "clean Q campaign_details"
    by (auto simp: get_campaign_def dest!: call_answer)
  have "trusted Q (snd (P', us'))"
  proof (rule for_each_invariant [OF loop, where I = "\<lambda>st. trusted Q (snd st)"])
    show "trusted Q (snd (P, us))" using inv by simp
  next
    fix result st v st' v'
    assume item: "result \<in> set results" and "trusted Q (snd st)"
      and "method2_body env result st v = (Inr st', v')"
    moreover from item have "clean Q result"
      using iterated_field_values [OF field iter] good clean_part by blast
    ultimately show "trusted Q (snd st')"
      using method2_body_trusted [of result Q env "fst st" "snd st" v "fst st'" "snd st'" v']
      by (simp add: clean_def)
  qed
  then show ?thesis by simp
qed

lemma method3_trusted:
  assumes details: "\<And>cid t s r. fst (api_get_campaign env cid t s) = Inr r \<Longrightarrow> clean Q r"
    and run: "method3 env cid results us w = (Inr us', w')"
    and inv: "trusted Q us"
  shows "trusted Q us'"
proof -
  from run consider (same) "us' = us"
    | (loop) v campaign_details w1 groups first_group rest targets ts clicked submitted w2
      where "get_campaign env cid v = (Inr campaign_details, w1)"
        and "py_get campaign_details ''groups'' (JArr []) = Inr groups"
        and "py_iter groups = Inr (first_group # rest)"
        and "py_get first_group ''targets'' (JArr []) = Inr targets"
        and "py_iter targets = Inr ts"
        and "for_each (method3_body env clicked submitted) (enumerate 0 ts) us w2 = (Inr us', w')"
    by (auto simp: method3_def and_then_def pure_def done_with_def logger_def
        split: sum.splits prod.splits if_splits list.splits)
  then show ?thesis
  proof cases
    case same
    with inv show ?thesis by simp
  next
    case loop
    from loop(1) details have good: "clean Q campaign_details"
      by (auto simp: get_campaign_def dest!: call_answer)
    have "clean Q first_group"
      using iterated_field_values [OF loop(2,3), of first_group] good clean_part by auto
    then have targets_good: "clean Q t" if "t \<in> set ts" for t
      using iterated_field_values [OF loop(4,5) that] clean_part by blast
    show ?thesis
    proof (rule for_each_invariant [OF loop(6), where I = "trusted Q"])
      show "trusted Q us" by (rule inv)
    next
      fix x st v st' v'
      assume item: "x \<in> set (enumerate 0 ts)" and "trusted Q st"
        and "method3_body env clicked submitted x st v = (Inr st', v')"
      moreover from item have "snd x \<in> set ts"
        by (metis in_set_enumerate_eq nth_mem add.right_neutral diff_zero)
      then have "clean Q (snd x)"
        by (rule targets_good)
      ultimately show "trusted Q st'"
        using method3_body_trusted [of "snd x" Q env clicked submitted "fst x" st v st' v']
        by (simp add: clean_def)
    qed
  qed
qed

lemma and_then_InrE:
  assumes "and_then m f w = (Inr y, w')"
  obtains x w1 where "m w = (Inr x, w1)" and "f x w1 = (Inr y, w')"
  using assms by (auto simp: and_then_def split: prod.splits sum.splits)

lemma extract_body_InrE:
  assumes "extract_body env campaign w = (Inr users, w')"
  obtains cid results w1 timeline n events st1 w2 st2 w3 w4 where
    "py_getitem campaign ''id'' = Inr cid"
    "get_campaign_summary env cid w = (Inr results, w1)"
    "py_get results ''timeline'' (JArr []) = Inr timeline"
    "py_len timeline = Inr n" "py_iter timeline = Inr events"
    "for_each (method1_body env) events ({}, [])
       (w1\<lparr>log := log w1 @ [(INFO, Processing_timeline n)]\<rparr>) = (Inr st1, w2)"
    "(if snd st1 = [] \<and> n = 0 then method2 env cid st1 else done_with st1) w2 = (Inr st2, w3)"
    "(if snd st2 = [] then method3 env cid results (snd st2) else done_with (snd st2)) w3
       = (Inr users, w4)"
  using assms unfolding extract_body_def
  apply (elim and_then_InrE)
  apply (simp add: pure_def logger_def done_with_def)
  done

text \<open>
  Claim C1. For every campaign input, also one with malformed, missing or absent fields,
  \<open>extract_campaign_results\<close> returns a list of affected users and never raises: when
  its \<open>try\<close> block fails with any exception, the error is logged and the empty list is
  returned; when the block succeeds, its list is returned.
\<close>

theorem extract_never_raises:
  "(\<exists>users w'. extract_campaign_results env campaign w = (Inr users, w')) \<and>
   (\<forall>e w1. extract_body env campaign w = (Inl e, w1) \<longrightarrow>
      extract_campaign_results env campaign w
        = (Inr [], w1\<lparr>log := log w1 @ [(ERROR, Error_extracting e)]\<rparr>)) \<and>
   (\<forall>users w1. extract_body env campaign w = (Inr users, w1) \<longrightarrow>
      extract_campaign_results env campaign w = (Inr users, w1))"
proof -
  obtain r w1 where body: "extract_body env campaign w = (r, w1)"
    by (cases "extract_body env campaign w")
  show ?thesis
  proof (cases r)
    case (Inl e)
    with body show ?thesis
      by (simp add: extract_campaign_results_def try_except_def and_then_def logger_def
          done_with_def)
  next
    case (Inr users)
    with body show ?thesis
      by (simp add: extract_campaign_results_def try_except_def)
  qed
qed

text \<open>A campaign without an \<open>id\<close>: the lookup raises \<open>KeyError\<close>, the result is empty.\<close>

theorem extract_never_raises_witness:
  "extract_body (constant_service (JObj []) (JObj []) 0) (JObj [(''name'', JStr ''May'')])
       (fresh_world ()) = (Inl KeyError, fresh_world ()) \<and>
   extract_campaign_results (constant_service (JObj []) (JObj []) 0)
       (JObj [(''name'', JStr ''May'')]) (fresh_world ())
     = (Inr [], (fresh_world ())\<lparr>log := [(ERROR, Error_extracting KeyError)]\<rparr>)"
proof -
  have missing_id:
    "extract_body (constant_service (JObj []) (JObj []) 0) (JObj [(''name'', JStr ''May'')])
       (fresh_world ()) = (Inl KeyError, fresh_world ())"
    by (simp add: extract_body_def and_then_def pure_def)
  with extract_never_raises
    [of "constant_service (JObj []) (JObj []) 0" "JObj [(''name'', JStr ''May'')]" "fresh_world ()"]
  show ?thesis by (simp add: fresh_world_def)
qed

text \<open>
  Claim C3. Method 1 is to drop an event only if the same email was already processed
  for the same lower-cased message. The key it compares is the text
  \<open>f"{email}_{message}"\<close>, which two different pairs can share. Here the event of
  \<open>ann_lee\<close> with message \<open>Clicked Link\<close> emits a user when it is alone in the timeline, and
  is dropped when it follows the event of \<open>ann\<close> with message \<open>lee_Clicked Link\<close>: both
  have the key \<open>ann_lee_clicked link\<close>.
\<close>

theorem event_key_collision:
  "map (\<lambda>u. (email u, event_type u))
     (projr (fst (extract_campaign_results
        (constant_service (JObj []) plain_summary 0) (JObj [(''id'', JInt 7)])
        (fresh_world ()))))
     = [(JStr ''ann_lee'', JStr ''Clicked Link'')] \<and>
   map (\<lambda>u. (email u, event_type u))
     (projr (fst (extract_campaign_results
        (constant_service (JObj []) colliding_summary 0) (JObj [(''id'', JInt 7)])
        (fresh_world ()))))
     = [(JStr ''ann'', JStr ''lee_Clicked Link'')]"
  by (simp add: extract_campaign_results_def try_except_def extract_body_def and_then_def
      pure_def done_with_def logger_def get_campaign_summary_def call_def
      constant_service_def fresh_world_def colliding_summary_def plain_summary_def
      underscore_event_def plain_event_def method1_body_def
      lower_def lower_char_def click_indicators_def py_str_def py_in_set_def py_eq_def)

text \<open>
  Claim C5, as amended. The extraction never lower-cases an email. Every affected user it
  returns, from any of the three methods, has a non-empty email that is a value stored
  under an \<open>email\<close> key of the service's answers (of the event or its details, of the
  result record, of the target), unchanged: whatever holds of all those values holds of
  every returned email. So the returned emails are lower-cased when the service supplies
  lower-cased emails.
\<close>

theorem emails_are_upstream_values:
  assumes summary: "\<And>cid t s r. fst (api_get_campaign_summary env cid t s) = Inr r \<Longrightarrow> clean Q r"
    and details: "\<And>cid t s r. fst (api_get_campaign env cid t s) = Inr r \<Longrightarrow> clean Q r"
  shows "\<forall>u\<in>set (projr (fst (extract_campaign_results env campaign w))).
           py_truthy (email u) \<and> Q (email u)"
proof -
  obtain r w' where body: "extract_body env campaign w = (r, w')"
    by (cases "extract_body env campaign w")
  show ?thesis
  proof (cases r)
    case (Inl e)
    with body show ?thesis
      by (simp add: extract_campaign_results_def try_except_def and_then_def logger_def
          done_with_def)
  next
    case (Inr users)
    with body have whole: "extract_campaign_results env campaign w = (Inr users, w')"
      by (simp add: extract_campaign_results_def try_except_def)
    from body Inr have "extract_body env campaign w = (Inr users, w')" by simp
    then obtain cid results w1 timeline n events st1 w2 st2 w3 w4
      where fetch: "get_campaign_summary env cid w = (Inr results, w1)"
        and field: "py_get results ''timeline'' (JArr []) = Inr timeline"
        and iter: "py_iter timeline = Inr events"
        and first: "for_each (method1_body env) events ({}, [])
                      (w1\<lparr>log := log w1 @ [(INFO, Processing_timeline n)]\<rparr>) = (Inr st1, w2)"
        and second: "(if snd st1 = [] \<and> n = 0 then method2 env cid st1 else done_with st1) w2
                       = (Inr st2, w3)"
        and third: "(if snd st2 = [] then method3 env cid results (snd st2)
                     else done_with (snd st2)) w3 = (Inr users, w4)"
      by (rule extract_body_InrE)
    from fetch summary have good: "clean Q results"
      by (auto simp: get_campaign_summary_def dest!: call_answer)
    have "trusted Q (snd st1)"
    proof (rule for_each_invariant [OF first, where I = "\<lambda>st. trusted Q (snd st)"])
      show "trusted Q (snd ({}, []))" by (simp add: trusted_def)
    next
      fix event st v st' v'
      assume item: "event \<in> set events" and "trusted Q (snd st)"
        and "method1_body env event st v = (Inr st', v')"
      moreover from item have "clean Q event"
        using iterated_field_values [OF field iter] good clean_part by blast
      ultimately show "trusted Q (snd st')"
        using method1_body_trusted [of event Q env "fst st" "snd st" v "fst st'" "snd st'" v']
        by (simp add: clean_def)
    qed
    note after_first = this
    have after_second: "trusted Q (snd st2)"
    proof (cases "snd st1 = [] \<and> n = 0")
      case True
      with second have "method2 env cid (fst st1, snd st1) w2 = (Inr (fst st2, snd st2), w3)"
        by (cases st1) auto
      from method2_trusted [OF details this after_first] show ?thesis .
    next
      case False
      with second have "st2 = st1" by (auto simp: done_with_def)
      with after_first show ?thesis by simp
    qed
    have "trusted Q users"
    proof (cases "snd st2 = []")
      case True
      with third have "method3 env cid results (snd st2) w3 = (Inr users, w4)"
        by simp
      from method3_trusted [OF details this after_second] show ?thesis .
    next
      case False
      with third have "users = snd st2" by (auto simp: done_with_def)
      with after_second show ?thesis by simp
    qed
    with whole show ?thesis by (simp add: trusted_def)
  qed
qed

text \<open>
  As the claim is stated it fails: an event whose email has capital letters yields an
  affected user with exactly that email.
\<close>

theorem emails_lower_cased_counterexample:
  "map email (projr (fst (extract_campaign_results
       (constant_service (JObj []) mixed_case_summary 0) (JObj [(''id'', JInt 7)])
       (fresh_world ()))))
     = [JStr ''Bob@Example.COM''] \<and>
   \<not> lower_cased (constant_service (JObj []) mixed_case_summary 0) (JStr ''Bob@Example.COM'')"
  by (simp add: extract_campaign_results_def try_except_def extract_body_def and_then_def
      pure_def done_with_def logger_def get_campaign_summary_def call_def
      constant_service_def fresh_world_def mixed_case_summary_def method1_body_def
      lower_def lower_char_def click_indicators_def py_str_def py_in_set_def lower_cased_def)

text \<open>The campaign of three targets, whose emails are lower-cased, gives lower-cased emails.\<close>

theorem emails_are_upstream_values_witness:
  "py_truthy (email (hd (projr (fst (extract_campaign_results
        (constant_service two_group_campaign counting_summary 0) (JObj [(''id'', JInt 7)])
        (fresh_world ())))))) \<and>
   lower_cased (constant_service two_group_campaign counting_summary 0)
     (email (hd (projr (fst (extract_campaign_results
        (constant_service two_group_campaign counting_summary 0) (JObj [(''id'', JInt 7)])
        (fresh_world ()))))))"
proof -
  let ?env = "constant_service two_group_campaign counting_summary 0"
  let ?users = "projr (fst (extract_campaign_results ?env (JObj [(''id'', JInt 7)])
                  (fresh_world ())))"
  have "\<forall>u\<in>set ?users. py_truthy (email u) \<and> lower_cased ?env (email u)"
  proof (rule emails_are_upstream_values)
    fix cid :: json and t :: int and s :: unit and r
    assume "fst (api_get_campaign_summary ?env cid t s) = Inr r"
    then show "clean (lower_cased ?env) r"
      by (auto simp: constant_service_def counting_summary_def clean_def)
  next
    fix cid :: json and t :: int and s :: unit and r
    assume "fst (api_get_campaign ?env cid t s) = Inr r"
    then show "clean (lower_cased ?env) r"
      by (auto simp: constant_service_def two_group_campaign_def target_of_def clean_def
          lower_cased_def lower_def lower_char_def)
  qed
  moreover have "?users \<noteq> []"
    by (simp add: extract_campaign_results_def try_except_def extract_body_def and_then_def
        pure_def done_with_def logger_def datetime_now_def get_campaign_def
        get_campaign_summary_def call_def method2_def method3_def method3_body_def
        py_gt_def py_lt_def py_max_def constant_service_def fresh_world_def
        two_group_campaign_def counting_summary_def target_of_def)
  then have "hd ?users \<in> set ?users"
    by (rule hd_in_set)
  ultimately show ?thesis
    by blast
qed

text \<open>
  Claim C6. Given a campaign with an empty timeline, no per-target results, statistics
  with \<open>clicked = 2\<close> and \<open>submitted_data = 1\<close>, and a first group of three targets with
  non-empty emails, the extraction returns exactly two affected users: the first target of
  the group as \<open>Submitted Data\<close> and the second as \<open>Clicked Link\<close>. Only the first group is
  read, whatever the further groups are.
\<close>

theorem method3_marks_first_targets:
  assumes cid: "py_getitem campaign ''id'' = Inr cid"
    and summary: "\<And>t s. fst (api_get_campaign_summary env cid t s) = Inr results"
    and details: "\<And>t s. fst (api_get_campaign env cid t s) = Inr details"
    and timeline: "py_get results ''timeline'' (JArr []) = Inr (JArr [])"
    and per_target: "py_get details ''results'' (JArr []) = Inr (JArr [])"
    and stats: "py_get results ''stats'' (JObj []) = Inr stats"
    and clicked: "py_get stats ''clicked'' (JInt 0) = Inr (JInt 2)"
    and submitted: "py_get stats ''submitted_data'' (JInt 0) = Inr (JInt 1)"
    and groups: "py_get details ''groups'' (JArr []) = Inr (JArr (first_group # more_groups))"
    and targets: "py_get first_group ''targets'' (JArr []) = Inr (JArr [t0, t1, t2])"
    and email0: "py_get t0 ''email'' (JStr '''') = Inr e0" "py_truthy e0"
    and email1: "py_get t1 ''email'' (JStr '''') = Inr e1" "py_truthy e1"
  shows "\<exists>u0 u1. fst (extract_campaign_results env campaign w) = Inr [u0, u1] \<and>
           email u0 = e0 \<and> event_type u0 = JStr ''Submitted Data'' \<and>
           py_get t0 ''first_name'' (JStr '''') = Inr (first_name u0) \<and>
           py_get t0 ''last_name'' (JStr '''') = Inr (last_name u0) \<and>
           email u1 = e1 \<and> event_type u1 = JStr ''Clicked Link'' \<and>
           py_get t1 ''first_name'' (JStr '''') = Inr (first_name u1) \<and>
           py_get t1 ''last_name'' (JStr '''') = Inr (last_name u1)"
proof -
  obtain kvs0 where t0: "t0 = JObj kvs0" using email0(1) by (cases t0) simp_all
  obtain kvs1 where t1: "t1 = JObj kvs1" using email1(1) by (cases t1) simp_all
  show ?thesis
    using assms unfolding t0 t1
    by (simp add: extract_campaign_results_def try_except_def extract_body_def and_then_def
        pure_def done_with_def logger_def datetime_now_def get_campaign_def
        get_campaign_summary_def call_parts method2_def method3_def method3_body_def
        py_gt_def py_lt_def py_max_def)
qed

text \<open>The campaign with two groups: Ann submitted, Ben clicked, the second group is not read.\<close>

theorem method3_marks_first_targets_witness:
  "map (\<lambda>u. (first_name u, email u, event_type u))
     (projr (fst (extract_campaign_results
        (constant_service two_group_campaign counting_summary 0) (JObj [(''id'', JInt 7)])
        (fresh_world ()))))
   = [(JStr ''Ann'', JStr ''ann@example.com'', JStr ''Submitted Data''),
      (JStr ''Ben'', JStr ''ben@example.com'', JStr ''Clicked Link'')]"
proof -
  let ?env = "constant_service two_group_campaign counting_summary 0"
  have "\<exists>u0 u1. fst (extract_campaign_results ?env (JObj [(''id'', JInt 7)]) (fresh_world ()))
            = Inr [u0, u1] \<and>
          email u0 = JStr ''ann@example.com'' \<and> event_type u0 = JStr ''Submitted Data'' \<and>
          py_get (target_of ''Ann'' ''ann@example.com'') ''first_name'' (JStr '''')
            = Inr (first_name u0) \<and>
          py_get (target_of ''Ann'' ''ann@example.com'') ''last_name'' (JStr '''')
            = Inr (last_name u0) \<and>
          email u1 = JStr ''ben@example.com'' \<and> event_type u1 = JStr ''Clicked Link'' \<and>
          py_get (target_of ''Ben'' ''ben@example.com'') ''first_name'' (JStr '''')
            = Inr (first_name u1) \<and>
          py_get (target_of ''Ben'' ''ben@example.com'') ''last_name'' (JStr '''')
            = Inr (last_name u1)"
    by (rule method3_marks_first_targets
          [where cid = "JInt 7" and results = counting_summary and details = two_group_campaign
             and stats = "JObj [(''total'', JInt 3), (''sent'', JInt 3),
                                (''clicked'', JInt 2), (''submitted_data'', JInt 1)]"
             and first_group = "JObj [(''targets'',
                            JArr [target_of ''Ann'' ''ann@example.com'',
                                  target_of ''Ben'' ''ben@example.com'',
                                  target_of ''Cy'' ''cy@example.com''])]"
             and more_groups = "[JNull]"
             and ?t2.0 = "target_of ''Cy'' ''cy@example.com''"])
       (simp_all add: constant_service_def two_group_campaign_def counting_summary_def
          target_of_def)
  then show ?thesis
    by (auto simp: target_of_def)
qed





section \<open>Properties of the monitor\<close>

text \<open>
  Loop heads compose, every loop head continues the same call, and a reference time that
  is set stays as it is. Every call ends in one of two ways: a poll before the deadline
  returns its snapshot, or a loop head at or after the deadline goes to the last fetch.
\<close>

lemma polls_on_trans:
  assumes "polls_on env cid st tt b c" and "polls_on env cid st tt a b"
  shows "polls_on env cid st tt a c"
  using assms by induction (auto intro: polls_on.intros)

lemma polls_on_same_call:
  assumes "polls_on env cid st tt a b"
  shows "monitor_loop env cid st tt (fst a) (snd a) = monitor_loop env cid st tt (fst b) (snd b)"
  using assms
proof induction
  case start
  show ?case by simp
next
  case (went_on l w l' w')
  then show ?case by (simp add: monitor_loop.simps [of env cid st tt l w])
next
  case (failed l w e w')
  then show ?case by (simp add: monitor_loop.simps [of env cid st tt l w])
qed

lemma polls_on_keeps_reference:
  assumes "polls_on env cid st tt a b" and "fst a = Some t"
  shows "fst b = Some t"
  using assms
proof induction
  case start
  then show ?case by simp
next
  case (went_on l w l' w')
  then have "l = Some t" by simp
  with went_on.hyps(3) show ?case
    by (auto simp: poll_body_def poll_checks_def and_then_def pure_def done_with_def logger_def
        datetime_now_def time_sleep_def Let_def
        split: sum.splits prod.splits if_splits flow.splits)
next
  case (failed l w e w')
  then show ?case by simp
qed

lemma monitor_loop_ends:
  "\<exists>l' v. polls_on env cid st tt (l, w) (l', v) \<and>
     (clock v < tt \<and> (\<exists>c v'. poll_body env cid st l' v = (Inr (Returned c), v') \<and>
                               monitor_loop env cid st tt l w = (Inr c, v'))
      \<or> tt \<le> clock v \<and> monitor_loop env cid st tt l w = timed_out env cid v)"
proof (induction env cid st tt l w rule: monitor_loop.induct)
  case (1 env cid st tt l w)
  show ?case
  proof (cases "clock w < tt")
    case False
    then have "monitor_loop env cid st tt l w = timed_out env cid w"
      by (simp add: monitor_loop.simps [of env cid st tt l w] timed_out_def)
    with False show ?thesis
      by (intro exI [of _ l] exI [of _ w]) (simp add: polls_on.start)
  next
    case True
    obtain r w1 where poll: "poll_body env cid st l w = (r, w1)"
      by (cases "poll_body env cid st l w")
    show ?thesis
    proof (cases r)
      case (Inl e)
      from "1.IH"(1) [OF True poll [symmetric] Inl]
      obtain l' v where reach: "polls_on env cid st tt (l, poll_failed env e w1) (l', v)"
        and ends: "clock v < tt \<and> (\<exists>c v'. poll_body env cid st l' v = (Inr (Returned c), v') \<and>
                       monitor_loop env cid st tt l (poll_failed env e w1) = (Inr c, v'))
                   \<or> tt \<le> clock v \<and>
                      monitor_loop env cid st tt l (poll_failed env e w1) = timed_out env cid v"
        by blast
      have step: "polls_on env cid st tt (l, w) (l, poll_failed env e w1)"
        using True poll Inl by (auto intro: polls_on.intros)
      have same: "monitor_loop env cid st tt l w
                    = monitor_loop env cid st tt l (poll_failed env e w1)"
        using True poll Inl by (simp add: monitor_loop.simps [of env cid st tt l w])
      from polls_on_trans [OF reach step] ends same show ?thesis
        by auto
    next
      case (Inr fl)
      show ?thesis
      proof (cases fl)
        case (Returned c)
        with True poll Inr have "monitor_loop env cid st tt l w = (Inr c, w1)"
          by (simp add: monitor_loop.simps [of env cid st tt l w])
        with True poll Inr Returned show ?thesis
          by (intro exI [of _ l] exI [of _ w]) (simp add: polls_on.start)
      next
        case (Next l1)
        from "1.IH"(2) [OF True poll [symmetric] Inr Next]
        obtain l' v where reach: "polls_on env cid st tt (l1, w1) (l', v)"
          and ends: "clock v < tt \<and> (\<exists>c v'. poll_body env cid st l' v = (Inr (Returned c), v') \<and>
                         monitor_loop env cid st tt l1 w1 = (Inr c, v'))
                     \<or> tt \<le> clock v \<and> monitor_loop env cid st tt l1 w1 = timed_out env cid v"
          by blast
        have step: "polls_on env cid st tt (l, w) (l1, w1)"
          using True poll Inr Next by (auto intro: polls_on.intros)
        have same: "monitor_loop env cid st tt l w = monitor_loop env cid st tt l1 w1"
          using True poll Inr Next by (simp add: monitor_loop.simps [of env cid st tt l w])
        from polls_on_trans [OF reach step] ends same show ?thesis
          by auto
      qed
    qed
  qed
qed

text \<open>
  A poll that starts without a reference time and goes on leaves it unset, unless it saw
  the campaign fully delivered and active and recorded the time of that observation.
\<close>

lemma unset_reference_stays:
  assumes "poll_body env cid st None v = (Inr (Next l'), v')"
  shows "l' = None \<or>
         (\<exists>c v1 s v2 stats. get_campaign env cid v = (Inr c, v1) \<and>
            get_campaign_summary env cid v1 = (Inr s, v2) \<and>
            py_get s ''stats'' (JObj []) = Inr stats \<and>
            sustained_activity stats \<and> l' = Some (clock v2))"
proof -
  from assms obtain w' where checks: "poll_checks env cid st None v = (Inr (Next l'), w')"
    by (auto simp: poll_body_def and_then_def done_with_def time_sleep_def
        split: sum.splits prod.splits flow.splits)
  then show ?thesis
    unfolding poll_checks_def
    apply (elim and_then_InrE)
    apply (auto simp: pure_def logger_def done_with_def datetime_now_def sustained_activity_def
        split: if_splits sum.splits elim!: and_then_InrE)
    done
qed

text \<open>
  The deadline of line 327. A timeout of a hundred million hours reaches past year 9999:
  the addition raises \<open>OverflowError\<close> before anything is logged or polled. The 0.5 hours
  of test mode are thirty minutes, and whole hours below 24 000 000 000 are themselves.
\<close>

lemma deadline_overflow:
  assumes "0 \<le> clock w"
  shows "wait_for_campaign_completion env cid (Int_value 100000000) w = (Inl OverflowError, w)"
  using assms
  by (simp add: wait_for_campaign_completion_def and_then_def datetime_now_def pure_def
      timedelta_hours_def timedelta_of_def datetime_plus_def datetime_max_def)

lemma half_hour_timeout:
  "timedelta_hours (constant_service campaign summary latency) (Float_value 1 (- 1)) = Inr (minutes 30)"
  by (simp add: timedelta_hours_def timedelta_of_def constant_service_def whole_microseconds_def
      minutes_def seconds_def)

lemma whole_hours_timeout:
  assumes "0 \<le> n" and "n < 24000000000"
  shows "timedelta_hours env (Int_value n) = Inr (hours n)"
proof -
  from assms have "- 999999999 \<le> n div 24 \<and> n div 24 \<le> 999999999"
    by presburger
  then show ?thesis
    by (simp add: timedelta_hours_def timedelta_of_def hours_def seconds_def)
qed

text \<open>The definitions that a run of the monitor on a given service unfolds.\<close>

lemmas run_defs =
  wait_for_campaign_completion_def monitor_loop.simps poll_body_def poll_checks_def
  poll_failed_def and_then_def pure_def done_with_def logger_def datetime_now_def time_sleep_def
  get_campaign_def get_campaign_summary_def call_def
  timedelta_hours_def timedelta_of_def datetime_plus_def datetime_max_def
  hours_def minutes_def seconds_def check_interval_def no_activity_timeout_def
  py_in_list_def py_eq_def py_gt_def fresh_world_def

text \<open>
  Claim C2. A failure of \<open>get_campaign\<close> or of \<open>get_campaign_summary\<close> during a poll is
  an exception of the \<open>try\<close> block: the handler logs it and sleeps, and the loop goes on
  from the same reference time, so the poll brought no new information. The monitor never
  raises because of a poll: its call ends either with the snapshot of a poll that met a
  stop condition before the deadline, or, from a loop head at or after the deadline, with
  the fetch that follows the loop.
\<close>

theorem poll_failures_are_retried:
  "(\<forall>e w1. get_campaign env cid w = (Inl e, w1) \<longrightarrow> poll_body env cid st l w = (Inl e, w1)) \<and>
   (\<forall>c w1 e w2. get_campaign env cid w = (Inr c, w1) \<and>
        get_campaign_summary env cid w1 = (Inl e, w2) \<longrightarrow>
        poll_body env cid st l w = (Inl e, w2)) \<and>
   (\<forall>e w1. clock w < tt \<and> poll_body env cid st l w = (Inl e, w1) \<longrightarrow>
        monitor_loop env cid st tt l w = monitor_loop env cid st tt l (poll_failed env e w1) \<and>
        sleeps (poll_failed env e w1) = Suc (sleeps w1) \<and>
        log (poll_failed env e w1) = log w1 @ [(ERROR, Error_checking_status e)]) \<and>
   (\<exists>l' v. polls_on env cid st tt (l, w) (l', v) \<and>
      (clock v < tt \<and> (\<exists>c v'. poll_body env cid st l' v = (Inr (Returned c), v') \<and>
                                monitor_loop env cid st tt l w = (Inr c, v'))
       \<or> tt \<le> clock v \<and> monitor_loop env cid st tt l w = timed_out env cid v))"
proof (intro conjI allI impI)
  fix e w1
  assume "get_campaign env cid w = (Inl e, w1)"
  then show "poll_body env cid st l w = (Inl e, w1)"
    by (simp add: poll_body_def poll_checks_def and_then_def)
next
  fix c w1 e w2
  assume "get_campaign env cid w = (Inr c, w1) \<and> get_campaign_summary env cid w1 = (Inl e, w2)"
  then show "poll_body env cid st l w = (Inl e, w2)"
    by (simp add: poll_body_def poll_checks_def and_then_def)
next
  fix e w1
  assume "clock w < tt \<and> poll_body env cid st l w = (Inl e, w1)"
  then show "monitor_loop env cid st tt l w = monitor_loop env cid st tt l (poll_failed env e w1)"
    by (simp add: monitor_loop.simps [of env cid st tt l w])
next
  fix e w1
  show "sleeps (poll_failed env e w1) = Suc (sleeps w1)"
    by (simp add: poll_failed_def and_then_def logger_def time_sleep_def)
next
  fix e w1
  show "log (poll_failed env e w1) = log w1 @ [(ERROR, Error_checking_status e)]"
    by (simp add: poll_failed_def and_then_def logger_def time_sleep_def)
next
  show "\<exists>l' v. polls_on env cid st tt (l, w) (l', v) \<and>
      (clock v < tt \<and> (\<exists>c v'. poll_body env cid st l' v = (Inr (Returned c), v') \<and>
                                monitor_loop env cid st tt l w = (Inr c, v'))
       \<or> tt \<le> clock v \<and> monitor_loop env cid st tt l w = timed_out env cid v)"
    by (rule monitor_loop_ends)
qed

text \<open>The service whose first summary request fails: the poll raises, the loop sleeps and goes on.\<close>

theorem poll_failures_are_retried_witness:
  "poll_body (flaky_service completed_campaign counting_summary) (JInt 7) 0 None (fresh_world 0)
     = (Inl RequestFailed, (fresh_world 0)\<lparr>service := 1\<rparr>) \<and>
   monitor_loop (flaky_service completed_campaign counting_summary) (JInt 7) 0 (hours 1) None
       (fresh_world 0)
     = monitor_loop (flaky_service completed_campaign counting_summary) (JInt 7) 0 (hours 1) None
         (poll_failed (flaky_service completed_campaign counting_summary) RequestFailed
            ((fresh_world 0)\<lparr>service := 1\<rparr>)) \<and>
   sleeps (poll_failed (flaky_service completed_campaign counting_summary) RequestFailed
            ((fresh_world 0)\<lparr>service := 1\<rparr>)) = 1"
proof -
  let ?env = "flaky_service completed_campaign counting_summary"
  let ?w = "fresh_world (0::nat)"
  note retried = poll_failures_are_retried [of ?env "JInt 7" ?w 0 None "hours 1"]
  have fetch: "get_campaign ?env (JInt 7) ?w = (Inr completed_campaign, ?w)"
    by (simp add: get_campaign_def call_def flaky_service_def fresh_world_def)
  have summary: "get_campaign_summary ?env (JInt 7) ?w = (Inl RequestFailed, ?w\<lparr>service := 1\<rparr>)"
    by (simp add: get_campaign_summary_def call_def flaky_service_def fresh_world_def)
  from retried fetch summary
  have poll: "poll_body ?env (JInt 7) 0 None ?w = (Inl RequestFailed, ?w\<lparr>service := 1\<rparr>)"
    by blast
  have "clock ?w < hours 1"
    by (simp add: fresh_world_def hours_def seconds_def)
  with retried poll show ?thesis
    by (simp add: fresh_world_def)
qed

text \<open>
  Claim C4, as amended. When the deadline \<open>start_time + timedelta(hours=timeout_hours)\<close>
  can be computed and no stop condition fires at any loop head of the call, the monitor
  leaves its loop at the first loop head whose clock reading is at or after the deadline,
  never before it, logs the warning and fetches the campaign once more; the call ends with
  that fetch, at or after the deadline, and returns the fetched snapshot when the fetch
  succeeds.
\<close>

theorem timeout_returns_last_snapshot:
  assumes delta: "timedelta_hours env timeout_hours = Inr delta"
    and deadline: "datetime_plus (clock w) delta = Inr timeout_time"
    and no_stop:
      "\<And>l v c v'.
         polls_on env cid (clock w) timeout_time
           (None, w\<lparr>log := log w @ [(INFO, Monitoring)]\<rparr>) (l, v)
         \<Longrightarrow> clock v < timeout_time
         \<Longrightarrow> poll_body env cid (clock w) l v \<noteq> (Inr (Returned c), v')"
  shows "timeout_time = clock w + delta \<and>
         (\<exists>l v. polls_on env cid (clock w) timeout_time
                  (None, w\<lparr>log := log w @ [(INFO, Monitoring)]\<rparr>) (l, v) \<and>
               timeout_time \<le> clock v \<and>
               wait_for_campaign_completion env cid timeout_hours w
                 = get_campaign env cid (v\<lparr>log := log v @ [(WARNING, Monitoring_timed_out)]\<rparr>) \<and>
               timeout_time
                 \<le> clock (snd (wait_for_campaign_completion env cid timeout_hours w)))"
proof -
  let ?w = "w\<lparr>log := log w @ [(INFO, Monitoring)]\<rparr>"
  from deadline have sum: "timeout_time = clock w + delta"
    by (simp add: datetime_plus_def split: if_splits)
  have whole: "wait_for_campaign_completion env cid timeout_hours w
                 = monitor_loop env cid (clock w) timeout_time None ?w"
    using delta deadline
    by (simp add: wait_for_campaign_completion_def and_then_def datetime_now_def pure_def
        logger_def)
  from monitor_loop_ends [of env cid "clock w" timeout_time None ?w]
  obtain l v where reach: "polls_on env cid (clock w) timeout_time (None, ?w) (l, v)"
    and ends: "clock v < timeout_time \<and>
                 (\<exists>c v'. poll_body env cid (clock w) l v = (Inr (Returned c), v') \<and>
                    monitor_loop env cid (clock w) timeout_time None ?w = (Inr c, v'))
               \<or> timeout_time \<le> clock v \<and>
                 monitor_loop env cid (clock w) timeout_time None ?w = timed_out env cid v"
    by blast
  from ends no_stop [OF reach] have late: "timeout_time \<le> clock v"
    and final: "monitor_loop env cid (clock w) timeout_time None ?w = timed_out env cid v"
    by auto
  let ?v = "v\<lparr>log := log v @ [(WARNING, Monitoring_timed_out)]\<rparr>"
  have fetch: "timed_out env cid v = get_campaign env cid ?v"
    by (simp add: timed_out_def and_then_def logger_def)
  have "clock ?v \<le> clock (snd (get_campaign env cid ?v))"
    by (simp add: get_campaign_def call_parts)
  with late have "timeout_time \<le> clock (snd (get_campaign env cid ?v))"
    by simp
  with reach late whole final fetch sum show ?thesis
    by auto
qed

text \<open>
  The return is not exactly at the deadline, and an exception can be raised. With requests
  that take one second each and a timeout of one hour, the loop heads are at 0, 602, ...,
  3010 and 3612 seconds; the monitor returns at 3613 seconds, after the deadline of 3600
  seconds, and no stop condition has fired. With a service that cannot be reached, the six
  polls fail and are retried, and the fetch after the loop, which no \<open>try\<close> guards, raises.
\<close>

theorem exactly_at_deadline_counterexample:
  "wait_for_campaign_completion (constant_service two_group_campaign sending_summary 1000000)
       (JInt 7) (Int_value 1) (fresh_world ())
     = (Inr two_group_campaign,
        \<lparr>clock = 3613000000, service = (),
          log = [(INFO, Monitoring),
                 (INFO, Status_line), (INFO, Stats_line), (INFO, Status_line), (INFO, Stats_line),
                 (INFO, Status_line), (INFO, Stats_line), (INFO, Status_line), (INFO, Stats_line),
                 (INFO, Status_line), (INFO, Stats_line), (INFO, Status_line), (INFO, Stats_line),
                 (WARNING, Monitoring_timed_out)],
          sleeps = 6\<rparr>) \<and>
   datetime_plus (clock (fresh_world ())) (hours 1) = Inr 3600000000 \<and>
   wait_for_campaign_completion down_service (JInt 7) (Int_value 1) (fresh_world ())
     = (Inl RequestFailed,
        \<lparr>clock = 3600000000, service = (),
          log = [(INFO, Monitoring),
                 (ERROR, Error_checking_status RequestFailed),
                 (ERROR, Error_checking_status RequestFailed),
                 (ERROR, Error_checking_status RequestFailed),
                 (ERROR, Error_checking_status RequestFailed),
                 (ERROR, Error_checking_status RequestFailed),
                 (ERROR, Error_checking_status RequestFailed),
                 (WARNING, Monitoring_timed_out)],
          sleeps = 6\<rparr>)"
  by (simp add: run_defs constant_service_def down_service_def two_group_campaign_def
      sending_summary_def)

text \<open>
  A campaign that is fully delivered and quiet: within the hour of the timeout its polls
  do not stop, although they would after more than an hour, and the monitor returns its
  campaign at the deadline.
\<close>

theorem timeout_returns_last_snapshot_witness:
  "fst (wait_for_campaign_completion
          (constant_service two_group_campaign quiet_summary 0) (JInt 7) (Int_value 1)
          (fresh_world ())) = Inr two_group_campaign \<and>
   hours 1 \<le> clock (snd (wait_for_campaign_completion
          (constant_service two_group_campaign quiet_summary 0) (JInt 7) (Int_value 1)
          (fresh_world ())))"
proof -
  let ?env = "constant_service two_group_campaign quiet_summary 0"
  let ?w = "fresh_world ()"
  have delta: "timedelta_hours ?env (Int_value 1) = Inr (hours 1)"
    by (simp add: timedelta_hours_def timedelta_of_def hours_def seconds_def)
  have deadline: "datetime_plus (clock ?w) (hours 1) = Inr (hours 1)"
    by (simp add: datetime_plus_def datetime_max_def hours_def seconds_def fresh_world_def)
  have no_stop: "poll_body ?env (JInt 7) (clock ?w) l v \<noteq> (Inr (Returned c), v')"
    if "polls_on ?env (JInt 7) (clock ?w) (hours 1)
          (None, ?w\<lparr>log := log ?w @ [(INFO, Monitoring)]\<rparr>) (l, v)"
      and "clock v < hours 1"
    for l :: "int option" and v v' :: "unit world" and c
    using that(2)
    by (simp add: poll_body_def poll_checks_def and_then_def pure_def done_with_def logger_def
        get_campaign_def get_campaign_summary_def call_def time_sleep_def datetime_now_def
        py_in_list_def py_eq_def py_gt_def fresh_world_def
        constant_service_def two_group_campaign_def quiet_summary_def)
  from timeout_returns_last_snapshot [OF delta deadline no_stop]
  obtain v where
    "wait_for_campaign_completion ?env (JInt 7) (Int_value 1) ?w
       = get_campaign ?env (JInt 7) (v\<lparr>log := log v @ [(WARNING, Monitoring_timed_out)]\<rparr>)"
    and "hours 1 \<le> clock (snd (wait_for_campaign_completion ?env (JInt 7) (Int_value 1) ?w))"
    by blast
  then show ?thesis
    by (simp add: get_campaign_def call_def constant_service_def)
qed

text \<open>
  Claim C8. On a poll that sees a campaign that is not completed, fully delivered
  (\<open>sent == total\<close>, \<open>sent > 0\<close>) and active (\<open>clicked > 0\<close> or \<open>submitted_data > 0\<close>): if no
  reference time is set, the time of this poll is recorded as \<open>last_activity_check\<close>; if
  one is set and more than 30 minutes have passed since, the monitor stops and returns the
  current snapshot; otherwise the poll goes on with the same reference time. Once set, the
  reference time is the same at every later loop head of the call, and it is set by no
  poll other than one that made this observation.
\<close>

theorem activity_reference_set_once:
  assumes fetch: "get_campaign env cid w = (Inr campaign, w1)"
    and summary: "get_campaign_summary env cid w1 = (Inr campaign_summary, w2)"
    and status: "py_get campaign ''status'' (JStr ''Unknown'') = Inr status"
    and running: "\<not> py_in_list status [JStr ''Completed'', JStr ''Finished'']"
    and stats: "py_get campaign_summary ''stats'' (JObj []) = Inr stats"
    and active: "sustained_activity stats"
  shows "fst (poll_body env cid st None w) = Inr (Next (Some (clock w2))) \<and>
         (\<forall>t. no_activity_timeout < clock w2 - t \<longrightarrow>
            poll_body env cid st (Some t) w =
              (Inr (Returned campaign),
               w2\<lparr>log := log w2 @ [(INFO, Status_line), (INFO, Stats_line),
                                   (INFO, No_new_activity)]\<rparr>) \<and>
            (\<forall>tt. clock w < tt \<longrightarrow> fst (monitor_loop env cid st tt (Some t) w) = Inr campaign)) \<and>
         (\<forall>t. \<not> no_activity_timeout < clock w2 - t \<longrightarrow>
            fst (poll_body env cid st (Some t) w) = Inr (Next (Some t))) \<and>
         (\<forall>t tt v l' v'. polls_on env cid st tt (Some t, v) (l', v') \<longrightarrow> l' = Some t) \<and>
         (\<forall>v l' v'. poll_body env cid st None v = (Inr (Next l'), v') \<longrightarrow>
            l' = None \<or>
            (\<exists>c v1 s v2 stats'. get_campaign env cid v = (Inr c, v1) \<and>
               get_campaign_summary env cid v1 = (Inr s, v2) \<and>
               py_get s ''stats'' (JObj []) = Inr stats' \<and>
               sustained_activity stats' \<and> l' = Some (clock v2)))"
proof -
  obtain kvs where dict: "stats = JObj kvs"
    using active by (cases stats) (simp_all add: sustained_activity_def)
  let ?checked = "w2\<lparr>log := log w2 @ [(INFO, Status_line), (INFO, Stats_line)]\<rparr>"
  have checks: "poll_checks env cid st l w =
      (case l of
         None \<Rightarrow> (Inr (Next (Some (clock w2))),
                   ?checked\<lparr>log := log ?checked @ [(INFO, Starting_activity_timeout)]\<rparr>)
       | Some t \<Rightarrow>
           if no_activity_timeout < clock w2 - t
           then (Inr (Returned campaign), ?checked\<lparr>log := log ?checked @ [(INFO, No_new_activity)]\<rparr>)
           else (Inr (Next (Some t)), ?checked))" for l
    using fetch summary status running stats active unfolding dict
    by (auto simp: poll_checks_def and_then_def pure_def done_with_def logger_def datetime_now_def
        sustained_activity_def split: option.splits)
  have first: "fst (poll_body env cid st None w) = Inr (Next (Some (clock w2)))"
    by (simp add: poll_body_def and_then_def checks time_sleep_def done_with_def)
  have stop: "poll_body env cid st (Some t) w =
              (Inr (Returned campaign),
               w2\<lparr>log := log w2 @ [(INFO, Status_line), (INFO, Stats_line),
                                   (INFO, No_new_activity)]\<rparr>)"
    if "no_activity_timeout < clock w2 - t" for t
    using that by (simp add: poll_body_def and_then_def checks done_with_def)
  have stop_loop: "fst (monitor_loop env cid st tt (Some t) w) = Inr campaign"
    if "no_activity_timeout < clock w2 - t" and "clock w < tt" for t tt
    using that stop [of t] by (simp add: monitor_loop.simps [of env cid st tt "Some t" w])
  have wait: "fst (poll_body env cid st (Some t) w) = Inr (Next (Some t))"
    if "\<not> no_activity_timeout < clock w2 - t" for t
    using that by (simp add: poll_body_def and_then_def checks time_sleep_def done_with_def)
  have kept: "l' = Some t" if "polls_on env cid st tt (Some t, v) (l', v')" for t tt v l' v'
    using polls_on_keeps_reference [OF that] by simp
  have unset: "l' = None \<or>
            (\<exists>c v1 s v2 stats'. get_campaign env cid v = (Inr c, v1) \<and>
               get_campaign_summary env cid v1 = (Inr s, v2) \<and>
               py_get s ''stats'' (JObj []) = Inr stats' \<and>
               sustained_activity stats' \<and> l' = Some (clock v2))"
    if "poll_body env cid st None v = (Inr (Next l'), v')" for v l' v'
    using that by (rule unset_reference_stays)
  from first stop stop_loop wait kept unset show ?thesis
    by blast
qed

text \<open>
  A campaign with two clicks and all mails sent: the first poll records time 0, a poll
  just over 30 minutes later returns, a poll at exactly 30 minutes goes on.
\<close>

theorem activity_reference_set_once_witness:
  "fst (poll_body (constant_service two_group_campaign counting_summary 0) (JInt 7) 0 None
          (fresh_world ())) = Inr (Next (Some 0)) \<and>
   fst (poll_body (constant_service two_group_campaign counting_summary 0) (JInt 7) 0 (Some 0)
          ((fresh_world ())\<lparr>clock := 1800000001\<rparr>)) = Inr (Returned two_group_campaign) \<and>
   fst (poll_body (constant_service two_group_campaign counting_summary 0) (JInt 7) 0 (Some 0)
          ((fresh_world ())\<lparr>clock := 1800000000\<rparr>)) = Inr (Next (Some 0))"
proof -
  let ?env = "constant_service two_group_campaign counting_summary 0"
  have fetch: "get_campaign ?env (JInt 7) v = (Inr two_group_campaign, v)" for v
    by (simp add: get_campaign_def call_def constant_service_def)
  have summary: "get_campaign_summary ?env (JInt 7) v = (Inr counting_summary, v)" for v
    by (simp add: get_campaign_summary_def call_def constant_service_def)
  have status: "py_get two_group_campaign ''status'' (JStr ''Unknown'') = Inr (JStr ''In progress'')"
    by (simp add: two_group_campaign_def)
  have running: "\<not> py_in_list (JStr ''In progress'') [JStr ''Completed'', JStr ''Finished'']"
    by (simp add: py_in_list_def py_eq_def)
  have stats: "py_get counting_summary ''stats'' (JObj [])
                 = Inr (JObj [(''total'', JInt 3), (''sent'', JInt 3),
                              (''clicked'', JInt 2), (''submitted_data'', JInt 1)])"
    by (simp add: counting_summary_def)
  have active: "sustained_activity (JObj [(''total'', JInt 3), (''sent'', JInt 3),
                              (''clicked'', JInt 2), (''submitted_data'', JInt 1)])"
    by (simp add: sustained_activity_def py_gt_def py_eq_def)
  let ?early = "(fresh_world ())\<lparr>clock := 1800000000\<rparr>"
  let ?late = "(fresh_world ())\<lparr>clock := 1800000001\<rparr>"
  from activity_reference_set_once
         [OF fetch [of "fresh_world ()"] summary status running stats active, where st = 0]
       activity_reference_set_once
         [OF fetch [of ?late] summary status running stats active, where st = 0]
       activity_reference_set_once
         [OF fetch [of ?early] summary status running stats active, where st = 0]
  show ?thesis
    by (simp add: fresh_world_def no_activity_timeout_def minutes_def seconds_def)
qed




end
